theory Spec2Isabelle
  imports Complex_Main "HOL-Library.Log_Nat"
begin

section \<open>Data model of \<open>src/chart.tsx\<close>\<close>

text \<open>
  The source file holds two variants of the chart component. The first one
  (\<open>Merging\<close>) merges the family links of duplicate individuals and probes the chart
  handle for \<open>setData\<close>; the second one (\<open>FirstWins\<close>) keeps the first record only
  and calls \<open>setData\<close> unconditionally. Everything else is the same in both.

  A finite JavaScript number is a real, with the non-finite values added in \<open>jsnum\<close>.
  The render coordinator is modelled with the exact value of each arithmetic expression;
  the export pipeline, where a product is divided again, rounds to the nearest double.
\<close>

datatype variant = Merging | FirstWins

text \<open>Individuals are objects: the dataset holds references into a heap of records.\<close>

record JsonIndi =
  indi_id :: string
  fams :: "string list option"
  famc :: "string option"
  sex :: "string option"
  firstName :: "string option"

type_synonym ref = nat
type_synonym heap = "ref \<Rightarrow> JsonIndi"

record JsonFam =
  fam_id :: string
  husb :: "string option"
  wife :: "string option"
  children :: "string list"

record JsonGedcomData =
  indis :: "ref list"
  gfams :: "JsonFam list"

subsection \<open>JavaScript \<open>Map\<close> and \<open>Set\<close>, in insertion order\<close>

type_synonym indi_map = "(string \<times> ref) list"

definition map_has :: "indi_map \<Rightarrow> string \<Rightarrow> bool" where
  "map_has m k = (map_of m k \<noteq> None)"

definition map_get :: "indi_map \<Rightarrow> string \<Rightarrow> ref option" where
  "map_get m k = map_of m k"

definition map_set :: "indi_map \<Rightarrow> string \<Rightarrow> ref \<Rightarrow> indi_map" where
  "map_set m k v =
     (if map_has m k then map (\<lambda>(k', v'). if k' = k then (k', v) else (k', v')) m
      else m @ [(k, v)])"

definition map_values :: "indi_map \<Rightarrow> ref list" where
  "map_values m = map snd m"

definition set_add :: "'a list \<Rightarrow> 'a \<Rightarrow> 'a list" where
  "set_add s x = (if x \<in> set s then s else s @ [x])"

text \<open>\<open>[...new Set(xs)]\<close>: the elements of \<open>xs\<close>, each at its first occurrence.\<close>

definition new_Set :: "'a list \<Rightarrow> 'a list" where
  "new_Set xs = foldl set_add [] xs"

text \<open>\<open>a || []\<close> on an optional array (an empty array is truthy).\<close>

definition or_empty :: "string list option \<Rightarrow> string list" where
  "or_empty a = (case a of None \<Rightarrow> [] | Some xs \<Rightarrow> xs)"

text \<open>\<open>a || b\<close> on optional strings: \<open>undefined\<close> and the empty string are falsy.\<close>

definition js_or :: "string option \<Rightarrow> string option \<Rightarrow> string option" where
  "js_or a b = (case a of None \<Rightarrow> b | Some s \<Rightarrow> if s = [] then b else Some s)"

subsection \<open>Deduplication of individuals\<close>

text \<open>
  The body of the \<open>forEach\<close> callback of the second variant:
  \<^verbatim>\<open>if (!uniqueIndis.has(indi.id)) { uniqueIndis.set(indi.id, indi); }\<close>
\<close>

definition dedup_step_first :: "heap \<Rightarrow> indi_map \<Rightarrow> ref \<Rightarrow> indi_map" where
  "dedup_step_first h m r =
     (if \<not> map_has m (indi_id (h r)) then map_set m (indi_id (h r)) r else m)"

definition uniqueIndis_first :: "heap \<Rightarrow> ref list \<Rightarrow> indi_map" where
  "uniqueIndis_first h rs = foldl (dedup_step_first h) [] rs"

text \<open>
  The callback of the first variant. On a duplicate it writes to the object found in the
  map (line 346 of the source lacks a closing parenthesis; it is read as
  \<^verbatim>\<open>[...new Set([...(existing.fams || []), ...(indi.fams || [])])]\<close>).
  The two assignments are two heap writes; the second one reads the heap after the first.
\<close>

definition merge_into :: "heap \<Rightarrow> ref \<Rightarrow> ref \<Rightarrow> heap" where
  "merge_into h e r =
     (let h1 = h(e := (h e)\<lparr>fams := Some (new_Set (or_empty (fams (h e)) @ or_empty (fams (h r))))\<rparr>)
      in h1(e := (h1 e)\<lparr>famc := js_or (famc (h1 r)) (famc (h1 e))\<rparr>))"

text \<open>
  What the two assignments make of the record found in the map, given the duplicate; and
  the relation of two heaps whose records differ at most in \<open>fams\<close> and \<open>famc\<close>.
\<close>

definition merge_record :: "JsonIndi \<Rightarrow> JsonIndi \<Rightarrow> JsonIndi" where
  "merge_record existing indi =
     existing\<lparr>fams := Some (new_Set (or_empty (fams existing) @ or_empty (fams indi))),
              famc := js_or (famc indi) (famc existing)\<rparr>"

definition only_links_differ :: "heap \<Rightarrow> heap \<Rightarrow> bool" where
  "only_links_differ h h' = (\<forall>r. h' r = (h r)\<lparr>fams := fams (h' r), famc := famc (h' r)\<rparr>)"

definition dedup_step_merge :: "heap \<times> indi_map \<Rightarrow> ref \<Rightarrow> heap \<times> indi_map" where
  "dedup_step_merge s r =
     (case s of (h, m) \<Rightarrow>
        if \<not> map_has m (indi_id (h r)) then (h, map_set m (indi_id (h r)) r)
        else (case map_get m (indi_id (h r)) of
                Some e \<Rightarrow> (merge_into h e r, m)
              | None \<Rightarrow> (h, m)))"

definition uniqueIndis_merge :: "heap \<Rightarrow> ref list \<Rightarrow> heap \<times> indi_map" where
  "uniqueIndis_merge h rs = foldl dedup_step_merge (h, []) rs"

text \<open>
  \<open>filteredData\<close> with the heap it leaves behind:
  \<^verbatim>\<open>{ ...props.data, indis: Array.from(uniqueIndis.values()) }\<close>
\<close>

definition filterData :: "variant \<Rightarrow> heap \<Rightarrow> JsonGedcomData \<Rightarrow> heap \<times> JsonGedcomData" where
  "filterData v h d =
     (case v of
        FirstWins \<Rightarrow> (h, d\<lparr>indis := map_values (uniqueIndis_first h (indis d))\<rparr>)
      | Merging \<Rightarrow>
          (case uniqueIndis_merge h (indis d) of
             (h', m) \<Rightarrow> (h', d\<lparr>indis := map_values m\<rparr>)))"

section \<open>Numbers\<close>

datatype jsnum = Num real | Infinity | NegInfinity | NaN

text \<open>Division of two finite numbers (the sign of a zero divisor is not modelled).\<close>

definition js_div :: "real \<Rightarrow> real \<Rightarrow> jsnum" where
  "js_div a b =
     (if b \<noteq> 0 then Num (a / b)
      else if 0 < a then Infinity else if a < 0 then NegInfinity else NaN)"

text \<open>
  Rounding to the nearest double, ties to even. The value is scaled by \<open>2 ^ 1074\<close>,
  which makes the smallest step of a double 1; a value of \<open>n\<close> bits then has the step
  \<open>2 ^ (n - 53)\<close>, and 1 if it has fewer than 53 bits. A result of \<open>2 ^ 1024\<close> or more
  is an infinity. The sign of zero is not modelled.
\<close>

definition round_even :: "real \<Rightarrow> int" where
  "round_even x =
     (let f = \<lfloor>x\<rfloor>; d = x - of_int f
      in if d < 1 / 2 then f else if 1 / 2 < d then f + 1 else if even f then f else f + 1)"

definition to_double :: "real \<Rightarrow> jsnum" where
  "to_double x =
     (let y = x * 2 ^ 1074;
          s = nat (bitlen \<lfloor>\<bar>y\<bar>\<rfloor> - 53);
          r = of_int (round_even (y / 2 ^ s)) * 2 ^ s / 2 ^ 1074
      in if 2 ^ 1024 \<le> r then Infinity
         else if r \<le> - (2 ^ 1024) then NegInfinity
         else Num r)"

text \<open>
  The finite numbers that are a factor of two or more away from both ends of the normal
  range of doubles: neither they nor a value next to them overflow or become subnormal.
\<close>

definition normal :: "real \<Rightarrow> bool" where
  "normal x = (1 / 2 ^ 1021 \<le> \<bar>x\<bar> \<and> \<bar>x\<bar> \<le> 2 ^ 1022)"

text \<open>The quotient of two finite numbers as a double.\<close>

definition double_div :: "real \<Rightarrow> real \<Rightarrow> jsnum" where
  "double_div a b =
     (if b \<noteq> 0 then to_double (a / b)
      else if 0 < a then Infinity else if a < 0 then NegInfinity else NaN)"

text \<open>\<open>Number(attr) / scale\<close> where the attribute may already be non-finite.\<close>

definition jsnum_div :: "jsnum \<Rightarrow> real \<Rightarrow> jsnum" where
  "jsnum_div a k =
     (case a of
        Num x \<Rightarrow> double_div x k
      | Infinity \<Rightarrow> (if k < 0 then NegInfinity else Infinity)
      | NegInfinity \<Rightarrow> (if k < 0 then Infinity else NegInfinity)
      | NaN \<Rightarrow> NaN)"

fun jsnum_less :: "jsnum \<Rightarrow> jsnum \<Rightarrow> bool" where
  "jsnum_less NaN _ = False"
| "jsnum_less _ NaN = False"
| "jsnum_less (Num a) (Num b) = (a < b)"
| "jsnum_less NegInfinity NegInfinity = False"
| "jsnum_less NegInfinity _ = True"
| "jsnum_less _ NegInfinity = False"
| "jsnum_less Infinity _ = False"
| "jsnum_less _ Infinity = True"

text \<open>
  \<open>min\<close> of d3-array: one pass that skips the values that do not compare (\<open>NaN\<close>);
  \<open>undefined\<close> when nothing is left.
\<close>

definition d3_min_step :: "jsnum option \<Rightarrow> jsnum \<Rightarrow> jsnum option" where
  "d3_min_step m v =
     (case m of
        None \<Rightarrow> (if v = NaN then None else Some v)
      | Some x \<Rightarrow> (if jsnum_less v x then Some v else Some x))"

definition d3_min :: "jsnum list \<Rightarrow> jsnum option" where
  "d3_min vs = foldl d3_min_step None vs"

section \<open>The render coordinator\<close>

record IndiInfo =
  info_id :: string
  generation :: int

datatype ChartType = Hourglass | Relatives | Fancy | Donatso

datatype ChartColors = Colored | Alternate | LightGrey | White

datatype TopolaChartColors = TColored | TAlternate | TLightGrey | TWhite

record ChartProps =
  data :: JsonGedcomData
  selection :: IndiInfo
  chartType :: ChartType
  onSelection :: nat
  freezeAnimation :: bool
  colors :: ChartColors
  hideIds :: string
  hideSex :: string

record RenderArgs =
  initialRender :: bool
  resetPosition :: bool

datatype topola_chart = HourglassChart | RelativesChart | FancyChart

datatype topola_renderer = CircleRenderer | CustomRenderer

fun getChartType :: "ChartType \<Rightarrow> topola_chart" where
  "getChartType Hourglass = HourglassChart"
| "getChartType Relatives = RelativesChart"
| "getChartType Fancy = FancyChart"
| "getChartType _ = HourglassChart"

fun getRendererType :: "ChartType \<Rightarrow> topola_renderer" where
  "getRendererType Fancy = CircleRenderer"
| "getRendererType _ = CustomRenderer"

fun chartColors_get :: "ChartColors \<Rightarrow> TopolaChartColors" where
  "chartColors_get Colored = TColored"
| "chartColors_get Alternate = TAlternate"
| "chartColors_get LightGrey = TLightGrey"
| "chartColors_get White = TWhite"

text \<open>The argument of \<open>createChart\<close>; \<open>opt_indiCallback\<close> names the wrapped callback.\<close>

record ChartOptions =
  opt_json :: JsonGedcomData
  opt_chartType :: topola_chart
  opt_renderer :: topola_renderer
  opt_svgSelector :: string
  opt_indiCallback :: nat
  opt_colors :: TopolaChartColors
  opt_animate :: bool
  opt_updateSvgSize :: bool
  opt_locale :: string

text \<open>
  The chart handle is an object of the charting library: what it was built from, the
  data it holds now, and whether it has a \<open>setData\<close> function.
\<close>

record ChartHandle =
  built_from :: ChartOptions
  held_data :: JsonGedcomData
  has_setData :: bool

record ChartInfo =
  chart_size :: "real \<times> real"
  chart_origin :: "real \<times> real"

text \<open>
  The charting library is a parameter: which handles carry \<open>setData\<close>, and what
  \<open>render\<close> reports. Its own failures are not modelled.
\<close>

record topola =
  gives_setData :: "ChartOptions \<Rightarrow> bool"
  layout :: "ChartHandle \<Rightarrow> string \<Rightarrow> int \<Rightarrow> ChartInfo"

record ZoomBehavior =
  scaleExtent :: "jsnum option \<times> jsnum"
  translateExtent :: "(real \<times> real) \<times> (real \<times> real)"
  zoomed_size :: "real \<times> real"

text \<open>An image element of the chart, by its \<open>href.baseVal\<close>.\<close>

record svg_image =
  href :: string

text \<open>
  The element \<open>#chartSvg\<close> with its group \<open>#chart\<close>: the attributes the code writes.
  \<open>None\<close> is an absent attribute.
\<close>

record svg_element =
  transform :: "(real \<times> real) option"
  width :: "jsnum option"
  height :: "jsnum option"
  chart_transform :: "real option"
  images :: "svg_image list"

text \<open>A d3 transition scheduled on \<open>#chartSvg\<close>, with the attributes and tweens given to it.\<close>

record transition =
  t_delay :: nat
  t_duration :: nat
  t_transform :: "(real \<times> real) option"
  t_width :: "real option"
  t_height :: "real option"
  t_scrollLeft :: "real option"
  t_scrollTop :: "real option"

datatype widget_call =
    ClearChart
  | CreateChart ChartOptions
  | SetData JsonGedcomData
  | Render string int

text \<open>
  The state a render reads and writes: the objects of the dataset, the fields of
  \<open>ChartWrapper\<close>, the container \<open>#svgContainer\<close> (client size, scroll offsets, zoom scale
  \<open>zoomTransform(parent).k\<close>), the SVG element, the calls made on the charting library and
  on \<open>#chart\<close>, the scheduled transitions, and the callbacks waiting on animation promises
  (each with the \<open>intl.locale\<close> it closed over).
\<close>

record world =
  store :: heap
  chart :: "ChartHandle option"
  zoomBehavior :: "ZoomBehavior option"
  animating :: bool
  rerenderRequired :: bool
  rerenderProps :: "ChartProps option"
  rerenderResetPosition :: "bool option"
  clientWidth :: real
  clientHeight :: real
  scrollLeft :: real
  scrollTop :: real
  zoom_k :: real
  chartSvg :: svg_element
  calls :: "widget_call list"
  transitions :: "transition list"
  thens :: "string list"

datatype error = TypeError

datatype 'a outcome = Done 'a | Threw error 'a

fun world_of :: "'a outcome \<Rightarrow> 'a" where
  "world_of (Done w) = w"
| "world_of (Threw e w) = w"

fun is_Done :: "'a outcome \<Rightarrow> bool" where
  "is_Done (Done w) = True"
| "is_Done (Threw e w) = False"


definition calculateScaleExtent :: "world \<Rightarrow> real \<Rightarrow> ChartInfo \<Rightarrow> jsnum option \<times> jsnum" where
  "calculateScaleExtent parent scale chartInfo =
     (let minScale = d3_min [js_div (clientWidth parent) (fst (chart_size chartInfo)),
                             js_div (clientHeight parent) (snd (chart_size chartInfo))];
          maxScale = Num 2
      in (minScale, maxScale))"

definition chartOptions :: "ChartProps \<Rightarrow> string \<Rightarrow> JsonGedcomData \<Rightarrow> ChartOptions" where
  "chartOptions props locale filteredData =
     \<lparr>opt_json = filteredData,
      opt_chartType = getChartType (chartType props),
      opt_renderer = getRendererType (chartType props),
      opt_svgSelector = ''#chart'',
      opt_indiCallback = onSelection props,
      opt_colors = chartColors_get (colors props),
      opt_animate = True,
      opt_updateSvgSize = False,
      opt_locale = locale\<rparr>"

definition createChart :: "topola \<Rightarrow> ChartOptions \<Rightarrow> world \<Rightarrow> world" where
  "createChart lib opts w =
     w\<lparr>chart := Some \<lparr>built_from = opts, held_data = opt_json opts,
                       has_setData = gives_setData lib opts\<rparr>,
       calls := calls w @ [CreateChart opts]\<rparr>"

definition setData :: "ChartHandle \<Rightarrow> JsonGedcomData \<Rightarrow> world \<Rightarrow> world" where
  "setData c d w = w\<lparr>chart := Some (c\<lparr>held_data := d\<rparr>), calls := calls w @ [SetData d]\<rparr>"

text \<open>
  Lines 353 to 384 and 856 to 871: build the chart or update it. The second variant calls
  \<open>this.chart!.setData(...)\<close> without a probe: its handle has the library's type
  \<open>ChartHandle\<close>, which has \<open>setData\<close>; with no chart, or were the function missing,
  the call throws.
\<close>

definition prepareChart ::
  "variant \<Rightarrow> topola \<Rightarrow> ChartProps \<Rightarrow> string \<Rightarrow> RenderArgs \<Rightarrow> JsonGedcomData \<Rightarrow> world \<Rightarrow> world outcome" where
  "prepareChart v lib props locale args filteredData w =
     (if initialRender args then
        Done (createChart lib (chartOptions props locale filteredData)
                (w\<lparr>calls := calls w @ [ClearChart]\<rparr>))
      else
        (case v of
           Merging \<Rightarrow>
             (case chart w of
                None \<Rightarrow> Done w
              | Some c \<Rightarrow>
                  if has_setData c then Done (setData c filteredData w)
                  else Done (createChart lib (chartOptions props locale filteredData) w))
         | FirstWins \<Rightarrow>
             (case chart w of
                None \<Rightarrow> Threw TypeError w
              | Some c \<Rightarrow>
                  if has_setData c then Done (setData c filteredData w)
                  else Threw TypeError w)))"

text \<open>
  Lines 385 to 459, after the chart has been built or updated: \<open>this.chart!.render\<close>,
  the zoom behaviour, the attributes of the SVG element (written at once on the initial
  render, given to the transition otherwise), the scroll offsets, and the callback on the
  animation promise. The browser's clamping of an assigned scroll offset is not modelled.
\<close>

definition applyLayout ::
  "topola \<Rightarrow> ChartProps \<Rightarrow> string \<Rightarrow> RenderArgs \<Rightarrow> ChartHandle \<Rightarrow> world \<Rightarrow> world" where
  "applyLayout lib props locale args c w =
     (let chartInfo = layout lib c (info_id (selection props)) (generation (selection props));
          w1 = w\<lparr>calls := calls w @ [Render (info_id (selection props)) (generation (selection props))]\<rparr>;
          scale = zoom_k w1;
          extent = calculateScaleExtent w1 scale chartInfo;
          w2 = w1\<lparr>zoomBehavior := Some \<lparr>scaleExtent = extent,
                                         translateExtent = ((0, 0), chart_size chartInfo),
                                         zoomed_size = chart_size chartInfo\<rparr>\<rparr>;
          dx = clientWidth w2 / 2 - fst (chart_origin chartInfo) * scale;
          dy = clientHeight w2 / 2 - snd (chart_origin chartInfo) * scale;
          offsetX = max 0 ((clientWidth w2 - fst (chart_size chartInfo) * scale) / 2);
          offsetY = max 0 ((clientHeight w2 - snd (chart_size chartInfo) * scale) / 2);
          svgTransition = \<lparr>t_delay = 200, t_duration = 500, t_transform = None,
                           t_width = None, t_height = None,
                           t_scrollLeft = None, t_scrollTop = None\<rparr>;
          w3 = (if initialRender args then
                  w2\<lparr>chartSvg := (chartSvg w2)
                        \<lparr>transform := Some (offsetX, offsetY),
                         width := Some (Num (fst (chart_size chartInfo) * scale)),
                         height := Some (Num (snd (chart_size chartInfo) * scale))\<rparr>\<rparr>
                else w2);
          animated = (if initialRender args then svgTransition
                      else svgTransition\<lparr>t_transform := Some (offsetX, offsetY),
                                         t_width := Some (fst (chart_size chartInfo) * scale),
                                         t_height := Some (snd (chart_size chartInfo) * scale)\<rparr>);
          w4 = (if resetPosition args then
                  (if initialRender args then
                     w3\<lparr>scrollLeft := - dx, scrollTop := - dy,
                        transitions := transitions w3 @ [animated]\<rparr>
                   else
                     w3\<lparr>transitions := transitions w3 @
                          [animated\<lparr>t_scrollLeft := Some (- dx), t_scrollTop := Some (- dy)\<rparr>]\<rparr>)
                else w3\<lparr>transitions := transitions w3 @ [animated]\<rparr>)
      in w4\<lparr>animating := True, thens := thens w4 @ [locale]\<rparr>)"

definition renderChart ::
  "variant \<Rightarrow> topola \<Rightarrow> ChartProps \<Rightarrow> string \<Rightarrow> RenderArgs \<Rightarrow> world \<Rightarrow> world outcome" where
  "renderChart v lib props locale args w =
     (if \<not> initialRender args \<and> animating w then
        Done (w\<lparr>rerenderRequired := True,
                rerenderProps := Some props,
                rerenderResetPosition := Some (resetPosition args)\<rparr>)
      else if \<not> initialRender args \<and> freezeAnimation props then Done w
      else
        (case filterData v (store w) (data props) of
           (h', filteredData) \<Rightarrow>
             (case prepareChart v lib props locale args filteredData (w\<lparr>store := h'\<rparr>) of
                Threw e w' \<Rightarrow> Threw e w'
              | Done w' \<Rightarrow>
                  (case chart w' of
                     None \<Rightarrow> Threw TypeError w'
                   | Some c \<Rightarrow> Done (applyLayout lib props locale args c w')))))"

text \<open>
  The callback given to \<open>chartInfo.animationPromise.then\<close> (lines 450 to 459);
  \<open>!!this.rerenderResetPosition\<close> is true only for a stored \<open>true\<close>.
\<close>

definition animationDone :: "variant \<Rightarrow> topola \<Rightarrow> string \<Rightarrow> world \<Rightarrow> world outcome" where
  "animationDone v lib locale w =
     (let w1 = w\<lparr>animating := False\<rparr>
      in if rerenderRequired w1 then
           (let w2 = w1\<lparr>rerenderRequired := False\<rparr>
            in case rerenderProps w2 of
                 None \<Rightarrow> Threw TypeError w2
               | Some p \<Rightarrow>
                   renderChart v lib p locale
                     \<lparr>initialRender = False,
                      resetPosition = (rerenderResetPosition w2 = Some True)\<rparr> w2)
         else Done w1)"

text \<open>An animation promise resolves: the oldest waiting callback runs.\<close>

definition resolveAnimation :: "variant \<Rightarrow> topola \<Rightarrow> world \<Rightarrow> world outcome" where
  "resolveAnimation v lib w =
     (case thens w of
        [] \<Rightarrow> Done w
      | l # ls \<Rightarrow> animationDone v lib l (w\<lparr>thens := ls\<rparr>))"


text \<open>
  The listener \<open>zoomed\<close> (lines 42 to 59), for a transform \<open>(k, x, y)\<close>. When the user
  zooms, d3 stores the new transform on the container and then calls the listener of the
  installed behaviour with the size that listener closed over; the clamping of the
  transform to the extents is d3's and is not modelled.
\<close>

definition zoomed :: "real \<times> real \<Rightarrow> real \<times> real \<times> real \<Rightarrow> world \<Rightarrow> world" where
  "zoomed sz tr w =
     (case tr of (k, x, y) \<Rightarrow>
        let scale = k;
            offsetX = max 0 ((clientWidth w - fst sz * scale) / 2);
            offsetY = max 0 ((clientHeight w - snd sz * scale) / 2)
        in w\<lparr>chartSvg := (chartSvg w)
                \<lparr>width := Some (Num (fst sz * scale)),
                 height := Some (Num (snd sz * scale)),
                 transform := Some (offsetX, offsetY),
                 chart_transform := Some scale\<rparr>,
             scrollLeft := - x, scrollTop := - y\<rparr>)"

definition zoom_event :: "real \<times> real \<times> real \<Rightarrow> world \<Rightarrow> world" where
  "zoom_event tr w =
     (case zoomBehavior w of
        None \<Rightarrow> w
      | Some zb \<Rightarrow> zoomed (zoomed_size zb) tr (w\<lparr>zoom_k := fst tr\<rparr>))"

section \<open>The export pipeline\<close>

text \<open>
  \<open>getStrippedSvg\<close> works on a copy of \<open>#chartSvg\<close>. An attribute is the decimal text
  of a number and \<open>Number\<close> reads it as the nearest double; \<open>Number(null)\<close> is 0, so an
  absent width or height reads as 0. The quotient is written back as text that reads as
  the same double.
\<close>

definition attr_Number :: "jsnum option \<Rightarrow> jsnum" where
  "attr_Number a =
     (case a of
        None \<Rightarrow> Num 0
      | Some (Num x) \<Rightarrow> to_double x
      | Some v \<Rightarrow> v)"

definition getStrippedSvg :: "world \<Rightarrow> svg_element" where
  "getStrippedSvg w =
     (let svg = chartSvg w;
          svg1 = svg\<lparr>transform := None\<rparr>;
          scale = zoom_k w;
          svg2 = svg1\<lparr>width := Some (jsnum_div (attr_Number (width svg1)) scale)\<rparr>;
          svg3 = svg2\<lparr>height := Some (jsnum_div (attr_Number (height svg2)) scale)\<rparr>
      in svg3\<lparr>chart_transform := None\<rparr>)"

text \<open>
  A promise is looked at once everything that can happen has happened: it has resolved,
  it has rejected, or it stays pending for ever.
\<close>

datatype 'a promise = Resolved 'a | Rejected | Pending

fun await :: "'a promise \<Rightarrow> ('a \<Rightarrow> 'b promise) \<Rightarrow> 'b promise" where
  "await (Resolved x) f = f x"
| "await Rejected f = Rejected"
| "await Pending f = Pending"

text \<open>\<open>Promise.all\<close>: rejected once one is rejected, resolved when all are.\<close>

definition promise_all :: "'a promise list \<Rightarrow> 'a list promise" where
  "promise_all ps =
     (if Rejected \<in> set ps then Rejected
      else if Pending \<in> set ps then Pending
      else Resolved (map (\<lambda>p. case p of Resolved x \<Rightarrow> x) ps))"

datatype reader_event = ReaderLoad string | ReaderError

datatype image_event = ImageLoad "nat \<times> nat" | ImageError

text \<open>
  The browser is a parameter: what \<open>fetch\<close> and \<open>response.blob()\<close> do for a URL, which
  event the \<open>FileReader\<close> and the \<open>Image\<close> get for a blob, what \<open>canvas.toBlob\<close> hands
  to its callback, and the text of \<open>XMLSerializer\<close>.
\<close>

record browser =
  fetch :: "string \<Rightarrow> string promise"
  response_blob :: "string \<Rightarrow> string promise"
  reader_result :: "string \<Rightarrow> reader_event"
  image_result :: "string \<Rightarrow> image_event"
  toBlob :: "nat \<times> nat \<Rightarrow> string \<Rightarrow> string option"
  serializeToString :: "svg_element \<Rightarrow> string"

definition loadAsDataUrl :: "browser \<Rightarrow> string \<Rightarrow> string promise" where
  "loadAsDataUrl br blob =
     (case reader_result br blob of
        ReaderLoad result \<Rightarrow> Resolved result
      | ReaderError \<Rightarrow> Pending)"

text \<open>The three awaited steps inside the \<open>try\<close> block of \<open>inlineImage\<close>.\<close>

definition fetchAsDataUrl :: "browser \<Rightarrow> string \<Rightarrow> string promise" where
  "fetchAsDataUrl br url =
     await (fetch br url) (\<lambda>response. await (response_blob br response) (loadAsDataUrl br))"

text \<open>
  \<open>inlineImage\<close> returns the image as it is left, whether a warning was logged, and its
  promise. The \<open>catch\<close> turns a rejection of any awaited step into a warning.
\<close>

definition inlineImage :: "browser \<Rightarrow> svg_image \<Rightarrow> svg_image \<times> bool \<times> unit promise" where
  "inlineImage br img =
     (if href img = [] then (img, False, Resolved ())
      else
        (case fetchAsDataUrl br (href img) of
           Resolved dataUrl \<Rightarrow> (img\<lparr>href := dataUrl\<rparr>, False, Resolved ())
         | Rejected \<Rightarrow> (img, True, Resolved ())
         | Pending \<Rightarrow> (img, False, Pending)))"

text \<open>
  \<open>inlineImages\<close>: every image goes through \<open>inlineImage\<close> on its own; the images are
  distinct elements, so the order in which the steps interleave does not show.
\<close>

definition inlineImages :: "browser \<Rightarrow> svg_element \<Rightarrow> svg_element \<times> bool list \<times> unit promise" where
  "inlineImages br svg =
     (let rs = map (inlineImage br) (images svg)
      in (svg\<lparr>images := map fst rs\<rparr>,
          map (\<lambda>r. fst (snd r)) rs,
          await (promise_all (map (\<lambda>r. snd (snd r)) rs)) (\<lambda>_. Resolved ())))"

definition loadImage :: "browser \<Rightarrow> string \<Rightarrow> (nat \<times> nat) promise" where
  "loadImage br blob =
     (case image_result br blob of
        ImageLoad img \<Rightarrow> Resolved img
      | ImageError \<Rightarrow> Pending)"

text \<open>The canvas is twice the image in each direction (filled white, then drawn on).\<close>

definition drawImageOnCanvas :: "nat \<times> nat \<Rightarrow> nat \<times> nat" where
  "drawImageOnCanvas img = (fst img * 2, snd img * 2)"

definition canvasToBlob :: "browser \<Rightarrow> nat \<times> nat \<Rightarrow> string \<Rightarrow> string promise" where
  "canvasToBlob br canvas mime =
     (case toBlob br canvas mime of
        Some blob \<Rightarrow> Resolved blob
      | None \<Rightarrow> Rejected)"

definition getSvgContents :: "browser \<Rightarrow> world \<Rightarrow> string" where
  "getSvgContents br w = serializeToString br (getStrippedSvg w)"

definition getSvgContentsWithInlinedImages :: "browser \<Rightarrow> world \<Rightarrow> string promise" where
  "getSvgContentsWithInlinedImages br w =
     (let svg = getStrippedSvg w
      in case inlineImages br svg of
           (svg', warned, p) \<Rightarrow> await p (\<lambda>_. Resolved (serializeToString br svg')))"

text \<open>The downloads resolve to what is given to \<open>saveAs\<close>: the blob and the file name.\<close>

definition downloadPdf :: "browser \<Rightarrow> world \<Rightarrow> (string \<times> string) promise" where
  "downloadPdf br w =
     await (getSvgContentsWithInlinedImages br w) (\<lambda>contents.
       await (loadImage br contents) (\<lambda>img.
         await (canvasToBlob br (drawImageOnCanvas img) ''application/pdf'') (\<lambda>pdfBlob.
           Resolved (pdfBlob, ''chart.pdf''))))"

definition downloadPng :: "browser \<Rightarrow> world \<Rightarrow> (string \<times> string) promise" where
  "downloadPng br w =
     await (getSvgContentsWithInlinedImages br w) (\<lambda>contents.
       await (loadImage br contents) (\<lambda>img.
         await (canvasToBlob br (drawImageOnCanvas img) ''image/png'') (\<lambda>pngBlob.
           Resolved (pngBlob, ''chart.png''))))"

definition downloadSvg :: "browser \<Rightarrow> world \<Rightarrow> (string \<times> string) promise" where
  "downloadSvg br w =
     await (getSvgContentsWithInlinedImages br w) (\<lambda>contents. Resolved (contents, ''chart.svg''))"

section \<open>A small dataset and page\<close>

text \<open>
  Three individuals of which two share the id \<open>I1\<close>, a library whose handles have
  \<open>setData\<close> except for the fancy chart, and a container of 800 by 450 at zoom scale 2.
\<close>

definition ex_lib :: topola where
  "ex_lib = \<lparr>gives_setData = (\<lambda>opts. opt_chartType opts \<noteq> FancyChart),
             layout = (\<lambda>c i g. \<lparr>chart_size = (400, 300), chart_origin = (200, 100)\<rparr>)\<rparr>"

definition ex_heap :: heap where
  "ex_heap = (\<lambda>r. \<lparr>indi_id = ''I0'', fams = None, famc = None, sex = None, firstName = None\<rparr>)
     (1 := \<lparr>indi_id = ''I1'', fams = Some [''F1''], famc = None, sex = Some ''M'', firstName = Some ''Ann''\<rparr>,
      2 := \<lparr>indi_id = ''I1'', fams = Some [''F2''], famc = Some ''F3'', sex = Some ''F'', firstName = Some ''Bea''\<rparr>)"

definition ex_props :: ChartProps where
  "ex_props = \<lparr>data = \<lparr>indis = [0, 1, 2], gfams = []\<rparr>,
               selection = \<lparr>info_id = ''I1'', generation = 0\<rparr>,
               chartType = Hourglass, onSelection = 0, freezeAnimation = False,
               colors = Colored, hideIds = ''HIDE'', hideSex = ''SHOW''\<rparr>"

definition ex_svg :: svg_element where
  "ex_svg = \<lparr>transform = None, width = None, height = None, chart_transform = None, images = []\<rparr>"

definition ex_world :: world where
  "ex_world = \<lparr>store = ex_heap, chart = None, zoomBehavior = None, animating = False,
               rerenderRequired = False, rerenderProps = None, rerenderResetPosition = None,
               clientWidth = 800, clientHeight = 450, scrollLeft = 0, scrollTop = 0,
               zoom_k = 2, chartSvg = ex_svg, calls = [], transitions = [], thens = []\<rparr>"



text \<open>A handle without \<open>setData\<close>.\<close>

definition ex_handle :: ChartHandle where
  "ex_handle = \<lparr>built_from = chartOptions ex_props ''en'' (data ex_props),
                 held_data = data ex_props, has_setData = False\<rparr>"

text \<open>
  A browser in which the fetch of \<open>b.png\<close> fails and every SVG text decodes to an image
  of 400 by 300 that the canvas can encode; one in which the image does not decode; and a
  chart with three images.
\<close>

definition ex_browser :: browser where
  "ex_browser =
     \<lparr>fetch = (\<lambda>url. if url = ''b.png'' then Rejected else Resolved url),
      response_blob = (\<lambda>response. Resolved response),
      reader_result = (\<lambda>blob. ReaderLoad (''data:'' @ blob)),
      image_result = (\<lambda>blob. ImageLoad (400, 300)),
      toBlob = (\<lambda>canvas mime. Some mime),
      serializeToString = (\<lambda>svg. concat (map href (images svg)))\<rparr>"

definition ex_browser_no_decode :: browser where
  "ex_browser_no_decode = ex_browser\<lparr>image_result := (\<lambda>blob. ImageError)\<rparr>"

definition ex_svg3 :: svg_element where
  "ex_svg3 = ex_svg\<lparr>images := [\<lparr>href = ''a.png''\<rparr>, \<lparr>href = ''b.png''\<rparr>, \<lparr>href = ''c.png''\<rparr>]\<rparr>"

text \<open>
  A chart of 1584 by 1200 first rendered at scale 1 and then zoomed by the factor of the
  \<open>+\<close> button, 1.3 as a double.
\<close>

definition ex_lib_wide :: topola where
  "ex_lib_wide = ex_lib\<lparr>layout := (\<lambda>c i g. \<lparr>chart_size = (1584, 1200), chart_origin = (792, 100)\<rparr>)\<rparr>"

definition ex_k13 :: real where
  "ex_k13 = 5854679515581645 / 2 ^ 52"

definition ex_zoomed :: world where
  "ex_zoomed =
     zoom_event (ex_k13, 0, 0)
       (world_of (renderChart Merging ex_lib_wide ex_props ''en''
          \<lparr>initialRender = True, resetPosition = True\<rparr> (ex_world\<lparr>zoom_k := 1\<rparr>)))"

text \<open>
  The same chart before the zoom, and a parser that gives back a known element for the
  text that \<open>ex_browser\<close> writes for an element without images.
\<close>

definition ex_unzoomed :: world where
  "ex_unzoomed =
     world_of (renderChart Merging ex_lib_wide ex_props ''en''
       \<lparr>initialRender = True, resetPosition = True\<rparr> (ex_world\<lparr>zoom_k := 1\<rparr>))"

definition ex_parse :: "svg_element \<Rightarrow> string \<Rightarrow> svg_element option" where
  "ex_parse s t = (if t = [] then Some s else None)"

section \<open>Basic facts\<close>

lemma applyLayout_chart: "chart (applyLayout lib props locale args c w) = chart w"
  by (simp add: applyLayout_def Let_def)

lemma applyLayout_zoom:
  "zoomBehavior (applyLayout lib props locale args c w) =
     Some \<lparr>scaleExtent = calculateScaleExtent w (zoom_k w)
              (layout lib c (info_id (selection props)) (generation (selection props))),
           translateExtent = ((0, 0), chart_size (layout lib c (info_id (selection props)) (generation (selection props)))),
           zoomed_size = chart_size (layout lib c (info_id (selection props)) (generation (selection props)))\<rparr>"
  by (simp add: applyLayout_def Let_def calculateScaleExtent_def)

lemma calc_min:
  assumes "fst (chart_size ci) \<noteq> 0" "snd (chart_size ci) \<noteq> 0"
  shows "calculateScaleExtent w k ci =
     (Some (Num (min (clientWidth w / fst (chart_size ci)) (clientHeight w / snd (chart_size ci)))), Num 2)"
  using assms by (simp add: calculateScaleExtent_def d3_min_def d3_min_step_def js_div_def min_def)

lemma calc_max: "snd (calculateScaleExtent w k ci) = Num 2"
  by (simp add: calculateScaleExtent_def Let_def)

lemma prepareChart_frame:
  assumes "prepareChart v lib props locale args fd w0 = Done w1"
  shows "store w1 = store w0" and "zoomBehavior w1 = zoomBehavior w0"
    and "animating w1 = animating w0" and "rerenderRequired w1 = rerenderRequired w0"
    and "rerenderProps w1 = rerenderProps w0"
    and "rerenderResetPosition w1 = rerenderResetPosition w0"
    and "clientWidth w1 = clientWidth w0" and "clientHeight w1 = clientHeight w0"
    and "scrollLeft w1 = scrollLeft w0" and "scrollTop w1 = scrollTop w0"
    and "zoom_k w1 = zoom_k w0" and "chartSvg w1 = chartSvg w0"
    and "transitions w1 = transitions w0" and "thens w1 = thens w0"
  using assms
  by (auto simp: prepareChart_def createChart_def setData_def
           split: if_splits variant.splits option.splits)

lemma renderChart_rendered:
  assumes "initialRender args \<or> (\<not> animating w \<and> \<not> freezeAnimation props)"
      and "renderChart v lib props locale args w = Done w'"
  shows "\<exists>c w1. prepareChart v lib props locale args (snd (filterData v (store w) (data props)))
                  (w\<lparr>store := fst (filterData v (store w) (data props))\<rparr>) = Done w1
               \<and> chart w1 = Some c \<and> w' = applyLayout lib props locale args c w1"
  using assms
  by (auto simp: renderChart_def split: prod.splits outcome.splits option.splits if_splits)

lemmas ex_defs = ex_world_def ex_props_def ex_lib_def ex_heap_def ex_svg_def
lemmas dedup_defs = filterData_def uniqueIndis_first_def dedup_step_first_def uniqueIndis_merge_def
  dedup_step_merge_def merge_into_def map_has_def map_get_def map_set_def map_values_def
  new_Set_def set_add_def or_empty_def js_or_def
lemmas render_defs = renderChart_def prepareChart_def createChart_def setData_def chartOptions_def
  applyLayout_def calculateScaleExtent_def d3_min_def d3_min_step_def js_div_def Let_def

lemma Done_world_of: "is_Done r \<Longrightarrow> r = Done (world_of r)"
  by (cases r) simp_all

lemma applyLayout_scroll:
  "scrollLeft (applyLayout lib props loc args c w) =
     (if resetPosition args \<and> initialRender args
      then fst (chart_origin (layout lib c (info_id (selection props)) (generation (selection props)))) * zoom_k w
             - clientWidth w / 2
      else scrollLeft w)"
  "scrollTop (applyLayout lib props loc args c w) =
     (if resetPosition args \<and> initialRender args
      then snd (chart_origin (layout lib c (info_id (selection props)) (generation (selection props)))) * zoom_k w
             - clientHeight w / 2
      else scrollTop w)"
  by (simp_all add: applyLayout_def Let_def)

lemma applyLayout_transitions:
  "\<exists>t. transitions (applyLayout lib props loc args c w) = transitions w @ [t] \<and>
       (\<not> resetPosition args \<longrightarrow> t_scrollLeft t = None \<and> t_scrollTop t = None)"
  by (simp add: applyLayout_def Let_def)

lemma applyLayout_calls:
  "calls (applyLayout lib props loc args c w) =
     calls w @ [Render (info_id (selection props)) (generation (selection props))]"
  by (simp add: applyLayout_def Let_def)

lemma prepareChart_initial:
  "initialRender args \<Longrightarrow>
   prepareChart v lib props loc args fd w =
     Done (createChart lib (chartOptions props loc fd) (w\<lparr>calls := calls w @ [ClearChart]\<rparr>))"
  by (simp add: prepareChart_def)

lemma prepareChart_Threw:
  "prepareChart v lib props loc args fd w = Threw e w1 \<Longrightarrow> w1 = w"
  by (auto simp: prepareChart_def split: if_splits variant.splits option.splits)

lemma prepareChart_Done_None:
  "prepareChart v lib props loc args fd w = Done w1 \<Longrightarrow> chart w1 = None \<Longrightarrow> w1 = w"
  by (auto simp: prepareChart_def createChart_def setData_def split: if_splits variant.splits option.splits)

text \<open>The four ways a call of \<open>renderChart\<close> can go.\<close>

lemma renderChart_cases:
  obtains
    (deferred) "\<not> initialRender args" "animating w"
       "renderChart v lib props loc args w =
          Done (w\<lparr>rerenderRequired := True, rerenderProps := Some props,
                  rerenderResetPosition := Some (resetPosition args)\<rparr>)"
  | (frozen) "\<not> initialRender args" "\<not> animating w" "freezeAnimation props"
       "renderChart v lib props loc args w = Done w"
  | (threw) "\<not> initialRender args" "\<not> animating w" "\<not> freezeAnimation props"
       "renderChart v lib props loc args w =
          Threw TypeError (w\<lparr>store := fst (filterData v (store w) (data props))\<rparr>)"
  | (rendered) c w1 where "initialRender args \<or> (\<not> animating w \<and> \<not> freezeAnimation props)"
       "prepareChart v lib props loc args (snd (filterData v (store w) (data props)))
          (w\<lparr>store := fst (filterData v (store w) (data props))\<rparr>) = Done w1"
       "chart w1 = Some c"
       "renderChart v lib props loc args w = Done (applyLayout lib props loc args c w1)"
proof -
  define R where "R = renderChart v lib props loc args w"
  define fd where "fd = filterData v (store w) (data props)"
  note deferred = deferred[folded R_def fd_def] and frozen = frozen[folded R_def fd_def]
   and threw = threw[folded R_def fd_def] and rendered = rendered[folded R_def fd_def]
  show ?thesis
proof (cases "\<not> initialRender args \<and> animating w")
  case True
  then show ?thesis using deferred by (simp add: R_def renderChart_def)
next
  case na: False
  show ?thesis
  proof (cases "\<not> initialRender args \<and> freezeAnimation props")
    case True
    then show ?thesis using na frozen by (auto simp: R_def renderChart_def)
  next
    case nf: False
    have gate: "initialRender args \<or> (\<not> animating w \<and> \<not> freezeAnimation props)"
      using na nf by blast
    have R: "R = (case prepareChart v lib props loc args (snd fd) (w\<lparr>store := fst fd\<rparr>) of
                Threw e w' \<Rightarrow> Threw e w'
              | Done w' \<Rightarrow> (case chart w' of None \<Rightarrow> Threw TypeError w'
                   | Some c \<Rightarrow> Done (applyLayout lib props loc args c w')))"
      using na nf
      by (cases "filterData v (store w) (data props)") (auto simp: R_def renderChart_def fd_def)
    show ?thesis
    proof (cases "prepareChart v lib props loc args (snd fd) (w\<lparr>store := fst fd\<rparr>)")
      case (Done w1)
      show ?thesis
      proof (cases "chart w1")
        case None
        with Done have "w1 = w\<lparr>store := fst fd\<rparr>" by (rule prepareChart_Done_None)
        moreover have "\<not> initialRender args"
          using Done None by (auto simp: prepareChart_initial createChart_def)
        ultimately show ?thesis using threw gate R Done None by simp
      next
        case (Some c)
        then show ?thesis using rendered gate R Done by simp
      qed
    next
      case (Threw e w1)
      then have "w1 = w\<lparr>store := fst fd\<rparr>" by (rule prepareChart_Threw)
      moreover have "\<not> initialRender args"
        using Threw by (auto simp: prepareChart_initial)
      moreover have "e = TypeError" by (cases e) simp
      ultimately show ?thesis using threw gate R Threw by simp
    qed
  qed
qed

qed








lemma loadAsDataUrl_not_Rejected: "loadAsDataUrl br blob \<noteq> Rejected"
  by (simp add: loadAsDataUrl_def split: reader_event.splits)

lemma loadImage_not_Rejected: "loadImage br blob \<noteq> Rejected"
  by (simp add: loadImage_def split: image_event.splits)

lemma inlineImage_not_Rejected: "snd (snd (inlineImage br img)) \<noteq> Rejected"
  by (simp add: inlineImage_def split: promise.splits)

lemma inlineImage_Resolved:
  "snd (snd (inlineImage br img)) = Resolved () \<longleftrightarrow>
     href img = [] \<or> fetchAsDataUrl br (href img) \<noteq> Pending"
  by (simp add: inlineImage_def split: promise.splits)

lemma promise_all_units:
  assumes "Rejected \<notin> set ps"
  shows "await (promise_all ps) (\<lambda>_. Resolved ()) =
           (if Pending \<in> set ps then Pending else Resolved ())"
  using assms by (simp add: promise_all_def)

lemma inlineImage_Pending:
  "snd (snd (inlineImage br img)) = Pending \<longleftrightarrow>
     href img \<noteq> [] \<and> fetchAsDataUrl br (href img) = Pending"
  by (simp add: inlineImage_def split: promise.splits)

lemma inlineImages_promise:
  "snd (snd (inlineImages br svg)) =
     (if \<forall>img \<in> set (images svg). href img = [] \<or> fetchAsDataUrl br (href img) \<noteq> Pending
      then Resolved () else Pending)"
proof -
  define ps where "ps = map (\<lambda>img. snd (snd (inlineImage br img))) (images svg)"
  have p: "snd (snd (inlineImages br svg)) = await (promise_all ps) (\<lambda>_. Resolved ())"
    by (simp add: inlineImages_def Let_def ps_def comp_def)
  have nr: "Rejected \<notin> set ps"
  proof
    assume "Rejected \<in> set ps"
    then obtain img where "snd (snd (inlineImage br img)) = Rejected"
      unfolding ps_def by (auto simp: eq_commute[of Rejected])
    then show False using inlineImage_not_Rejected by blast
  qed
  have pe: "Pending \<in> set ps \<longleftrightarrow>
      (\<exists>img \<in> set (images svg). href img \<noteq> [] \<and> fetchAsDataUrl br (href img) = Pending)"
  proof
    assume "Pending \<in> set ps"
    then obtain img where "img \<in> set (images svg)" "snd (snd (inlineImage br img)) = Pending"
      unfolding ps_def by (auto simp: eq_commute[of Pending])
    then show "\<exists>img \<in> set (images svg). href img \<noteq> [] \<and> fetchAsDataUrl br (href img) = Pending"
      using inlineImage_Pending by blast
  next
    assume "\<exists>img \<in> set (images svg). href img \<noteq> [] \<and> fetchAsDataUrl br (href img) = Pending"
    then obtain img where i: "img \<in> set (images svg)" "snd (snd (inlineImage br img)) = Pending"
      using inlineImage_Pending by blast
    from i(1) have "snd (snd (inlineImage br img)) \<in> set ps" unfolding ps_def by simp
    with i(2) show "Pending \<in> set ps" by simp
  qed
  show ?thesis
    unfolding p promise_all_units[OF nr] pe by auto
qed

lemmas export_defs = getSvgContentsWithInlinedImages_def getStrippedSvg_def inlineImages_def
  inlineImage_def fetchAsDataUrl_def loadAsDataUrl_def promise_all_def
  ex_browser_def ex_browser_no_decode_def ex_svg3_def ex_svg_def
  ex_world_def Let_def

lemma getSvgContents_not_Rejected: "getSvgContentsWithInlinedImages br w \<noteq> Rejected"
proof -
  have "snd (snd (inlineImages br (getStrippedSvg w))) \<noteq> Rejected"
    by (simp add: inlineImages_promise)
  then show ?thesis
    by (cases "snd (snd (inlineImages br (getStrippedSvg w)))")
       (auto simp: getSvgContentsWithInlinedImages_def Let_def split: prod.splits)
qed

lemma download_Rejected:
  assumes "await (getSvgContentsWithInlinedImages br w) (\<lambda>contents.
       await (loadImage br contents) (\<lambda>img.
         await (canvasToBlob br (drawImageOnCanvas img) mime) (\<lambda>blob.
           Resolved (blob, name)))) = Rejected"
  shows "\<exists>contents img. getSvgContentsWithInlinedImages br w = Resolved contents \<and>
           loadImage br contents = Resolved img \<and>
           toBlob br (drawImageOnCanvas img) mime = None"
proof (cases "getSvgContentsWithInlinedImages br w")
  case (Resolved contents)
  show ?thesis
  proof (cases "loadImage br contents")
    case r: (Resolved img)
    with Resolved assms have "toBlob br (drawImageOnCanvas img) mime = None"
      by (auto simp: canvasToBlob_def split: option.splits)
    with Resolved r show ?thesis by blast
  next
    case Rejected
    then show ?thesis using loadImage_not_Rejected by blast
  next
    case Pending
    with Resolved assms show ?thesis by simp
  qed
next
  case Rejected
  then show ?thesis using getSvgContents_not_Rejected by blast
next
  case Pending
  with assms show ?thesis by simp
qed

lemma merge_into_eq: "merge_into h e r = h(e := merge_record (h e) (h r))"
  by (auto simp: merge_into_def merge_record_def Let_def fun_eq_iff)

lemma only_links_differ_refl: "only_links_differ h h"
  by (simp add: only_links_differ_def)

lemma only_links_differ_id: "only_links_differ h h' \<Longrightarrow> indi_id (h' r) = indi_id (h r)"
  unfolding only_links_differ_def by (metis JsonIndi.select_convs(1) JsonIndi.surjective JsonIndi.update_convs(2) JsonIndi.update_convs(3))

lemma only_links_differ_merge:
  assumes "only_links_differ h0 h"
  shows "only_links_differ h0 (merge_into h e r)"
  unfolding only_links_differ_def
proof
  fix x
  have hx: "h x = (h0 x)\<lparr>fams := fams (h x), famc := famc (h x)\<rparr>"
    using assms by (simp add: only_links_differ_def)
  show "merge_into h e r x = (h0 x)\<lparr>fams := fams (merge_into h e r x), famc := famc (merge_into h e r x)\<rparr>"
  proof (cases "x = e")
    case True
    have "merge_record (h e) (h r) = (h0 e)\<lparr>fams := fams (merge_record (h e) (h r)),
             famc := famc (merge_record (h e) (h r))\<rparr>"
      by (subst (1) merge_record_def, subst hx[unfolded True]) (simp add: merge_record_def)
    then show ?thesis using True by (simp add: merge_into_eq)
  next
    case False
    then show ?thesis using hx by (simp add: merge_into_eq)
  qed
qed

lemma dedup_step_first_append:
  "dedup_step_first h m r =
     (if map_of m (indi_id (h r)) = None then m @ [(indi_id (h r), r)] else m)"
  by (simp add: dedup_step_first_def map_has_def map_set_def)

lemma merge_loop_map:
  assumes "only_links_differ h0 h"
  shows "only_links_differ h0 (fst (foldl dedup_step_merge (h, m) rs)) \<and>
         snd (foldl dedup_step_merge (h, m) rs) = foldl (dedup_step_first h0) m rs"
  using assms
proof (induction rs arbitrary: h m)
  case Nil
  then show ?case by simp
next
  case (Cons r rs)
  have id: "indi_id (h r) = indi_id (h0 r)"
    using Cons.prems by (rule only_links_differ_id)
  show ?case
  proof (cases "map_of m (indi_id (h0 r))")
    case None
    then have "dedup_step_merge (h, m) r = (h, dedup_step_first h0 m r)"
      by (simp add: dedup_step_merge_def dedup_step_first_def id map_has_def)
    then show ?thesis using Cons.IH[OF Cons.prems] by simp
  next
    case (Some e)
    then have "dedup_step_merge (h, m) r = (merge_into h e r, dedup_step_first h0 m r)"
      by (simp add: dedup_step_merge_def dedup_step_first_def id map_has_def map_get_def)
    then show ?thesis
      using Cons.IH[OF only_links_differ_merge[OF Cons.prems]] by simp
  qed
qed


lemma dedup_step_first_map_of:
  "map_of (dedup_step_first h m r) k =
     (case map_of m k of
        Some x \<Rightarrow> Some x
      | None \<Rightarrow> if indi_id (h r) = k then Some r else None)"
  by (auto simp: dedup_step_first_append map_add_def split: option.splits)

lemma first_loop_map_of:
  "map_of (foldl (dedup_step_first h) m rs) k =
     (case map_of m k of
        Some r \<Rightarrow> Some r
      | None \<Rightarrow> find (\<lambda>r. indi_id (h r) = k) rs)"
proof (induction rs arbitrary: m)
  case Nil
  then show ?case by (simp split: option.splits)
next
  case (Cons r rs)
  have "map_of (foldl (dedup_step_first h) m (r # rs)) k =
     (case map_of (dedup_step_first h m r) k of
        Some r \<Rightarrow> Some r
      | None \<Rightarrow> find (\<lambda>r. indi_id (h r) = k) rs)"
    using Cons.IH[of "dedup_step_first h m r"] by simp
  then show ?case
    by (simp add: dedup_step_first_map_of split: option.splits)
qed

lemma first_loop_keys:
  assumes "distinct (map fst m)" and "\<forall>(k, r) \<in> set m. indi_id (h r) = k"
  shows "distinct (map fst (foldl (dedup_step_first h) m rs)) \<and>
         (\<forall>(k, r) \<in> set (foldl (dedup_step_first h) m rs). indi_id (h r) = k)"
  using assms
proof (induction rs arbitrary: m)
  case Nil
  then show ?case by simp
next
  case (Cons r rs)
  have "distinct (map fst (dedup_step_first h m r))"
    using Cons.prems(1) by (auto simp: dedup_step_first_append map_of_eq_None_iff)
  moreover have "\<forall>(k, r) \<in> set (dedup_step_first h m r). indi_id (h r) = k"
    using Cons.prems(2) by (auto simp: dedup_step_first_append)
  ultimately show ?case using Cons.IH by simp
qed

lemma filter_values_by_key:
  assumes "distinct (map fst m)" and "\<forall>(k, r) \<in> set m. key r = k"
  shows "filter (\<lambda>r. key r = k) (map snd m) =
           (case map_of m k of None \<Rightarrow> [] | Some r \<Rightarrow> [r])"
  using assms
proof (induction m)
  case Nil
  then show ?case by simp
next
  case (Cons p m)
  obtain k' r' where p: "p = (k', r')" by (cases p)
  have ih: "filter (\<lambda>r. key r = k) (map snd m) =
           (case map_of m k of None \<Rightarrow> [] | Some r \<Rightarrow> [r])"
    using Cons by simp
  have kr: "key r' = k'" using Cons.prems(2) p by simp
  show ?case
  proof (cases "k' = k")
    case True
    then have "map_of m k = None"
      using Cons.prems(1) p by (simp add: map_of_eq_None_iff)
    then show ?thesis using ih True kr p by simp
  next
    case False
    then show ?thesis using ih kr p by simp
  qed
qed

lemma first_wins_retained:
  "filter (\<lambda>r. indi_id (h r) = k) (map_values (uniqueIndis_first h rs)) =
     (case find (\<lambda>r. indi_id (h r) = k) rs of None \<Rightarrow> [] | Some r \<Rightarrow> [r])"
proof -
  have "distinct (map fst (uniqueIndis_first h rs)) \<and>
        (\<forall>(k, r) \<in> set (uniqueIndis_first h rs). indi_id (h r) = k)"
    unfolding uniqueIndis_first_def by (rule first_loop_keys) simp_all
  then have "filter (\<lambda>r. indi_id (h r) = k) (map snd (uniqueIndis_first h rs)) =
           (case map_of (uniqueIndis_first h rs) k of None \<Rightarrow> [] | Some r \<Rightarrow> [r])"
    by (intro filter_values_by_key) auto
  then show ?thesis
    by (simp add: map_values_def uniqueIndis_first_def first_loop_map_of)
qed

lemma filterData_indis:
  "indis (snd (filterData v h d)) = map_values (uniqueIndis_first h (indis d))"
proof (cases v)
  case Merging
  have "snd (uniqueIndis_merge h (indis d)) = uniqueIndis_first h (indis d)"
    unfolding uniqueIndis_merge_def uniqueIndis_first_def
    using merge_loop_map[OF only_links_differ_refl] by blast
  then show ?thesis using Merging by (auto simp: filterData_def split: prod.splits)
next
  case FirstWins
  then show ?thesis by (simp add: filterData_def)
qed

lemma merge_loop_known_key:
  assumes "map_of m k = Some e"
      and "\<forall>(k', v) \<in> set m. indi_id (h v) = k'"
      and "distinct rs" and "snd ` set m \<inter> set rs = {}"
  shows "fst (foldl dedup_step_merge (h, m) rs) e =
           foldl merge_record (h e) (map h (filter (\<lambda>r. indi_id (h r) = k) rs))"
  using assms
proof (induction rs arbitrary: h m)
  case Nil
  then show ?case by simp
next
  case (Cons r rs)
  have e_in: "e \<in> snd ` set m"
    using Cons.prems(1) by (metis image_eqI map_of_SomeD snd_conv)
  have e_id: "indi_id (h e) = k"
    using Cons.prems(1,2) by (auto dest: map_of_SomeD)
  have e_notin: "e \<noteq> r" "e \<notin> set rs"
    using e_in Cons.prems(4) by auto
  show ?case
  proof (cases "map_of m (indi_id (h r))")
    case None
    then have step: "dedup_step_merge (h, m) r = (h, m @ [(indi_id (h r), r)])"
      by (simp add: dedup_step_merge_def map_has_def map_set_def)
    have nk: "indi_id (h r) \<noteq> k" using None Cons.prems(1) by auto
    have "fst (foldl dedup_step_merge (h, m @ [(indi_id (h r), r)]) rs) e =
           foldl merge_record (h e) (map h (filter (\<lambda>r. indi_id (h r) = k) rs))"
    proof (rule Cons.IH)
      show "map_of (m @ [(indi_id (h r), r)]) k = Some e"
        using Cons.prems(1) by (simp add: map_add_def)
      show "\<forall>(k', v) \<in> set (m @ [(indi_id (h r), r)]). indi_id (h v) = k'"
        using Cons.prems(2) by auto
      show "distinct rs" using Cons.prems(3) by simp
      show "snd ` set (m @ [(indi_id (h r), r)]) \<inter> set rs = {}"
        using Cons.prems(3,4) by auto
    qed
    then show ?thesis using step nk by simp
  next
    case (Some e')
    define h' where "h' = h(e' := merge_record (h e') (h r))"
    have step: "dedup_step_merge (h, m) r = (h', m)"
      using Some by (simp add: dedup_step_merge_def map_has_def map_get_def merge_into_eq h'_def)
    have e'_in: "e' \<in> snd ` set m"
      using Some by (metis image_eqI map_of_SomeD snd_conv)
    have e'_id: "indi_id (h e') = indi_id (h r)"
      using Some Cons.prems(2) by (auto dest: map_of_SomeD)
    have ids: "indi_id (h' x) = indi_id (h x)" for x
      by (simp add: merge_record_def h'_def)
    have rest: "h' x = h x" if "x \<in> set rs" for x
      using that e'_in Cons.prems(4) by (auto simp: h'_def)
    have ih: "fst (foldl dedup_step_merge (h', m) rs) e =
           foldl merge_record (h' e) (map h' (filter (\<lambda>r. indi_id (h' r) = k) rs))"
    proof (rule Cons.IH)
      show "map_of m k = Some e" by (rule Cons.prems(1))
      show "\<forall>(k', v) \<in> set m. indi_id (h' v) = k'"
        using Cons.prems(2) unfolding ids .
      show "distinct rs" using Cons.prems(3) by simp
      show "snd ` set m \<inter> set rs = {}" using Cons.prems(4) by auto
    qed
    have maps: "map h' (filter (\<lambda>r. indi_id (h' r) = k) rs) =
                map h (filter (\<lambda>r. indi_id (h r) = k) rs)"
      unfolding ids using rest by (auto intro: map_cong)
    have res: "fst (foldl dedup_step_merge (h, m) (r # rs)) e =
           foldl merge_record (h' e) (map h (filter (\<lambda>r. indi_id (h r) = k) rs))"
      using step ih maps by simp
    show ?thesis
    proof (cases "indi_id (h r) = k")
      case True
      then have "e' = e" using Some Cons.prems(1) by simp
      then have "h' e = merge_record (h e) (h r)" by (simp add: h'_def)
      then show ?thesis using res True by simp
    next
      case False
      then have "e' \<noteq> e" using e'_id e_id by auto
      then have "h' e = h e" by (simp add: h'_def)
      then show ?thesis using res False by simp
    qed
  qed
qed


lemma merge_loop_new_key:
  assumes "map_of m k = None"
      and "\<forall>(k', v) \<in> set m. indi_id (h v) = k'"
      and "distinct rs" and "snd ` set m \<inter> set rs = {}"
      and "find (\<lambda>r. indi_id (h r) = k) rs = Some e"
  shows "fst (foldl dedup_step_merge (h, m) rs) e =
           foldl merge_record (h e) (map h (filter (\<lambda>r. indi_id (h r) = k \<and> r \<noteq> e) rs))"
  using assms
proof (induction rs arbitrary: h m)
  case Nil
  then show ?case by simp
next
  case (Cons r rs)
  show ?case
  proof (cases "indi_id (h r) = k")
    case True
    then have er: "e = r" using Cons.prems(5) by simp
    have step: "dedup_step_merge (h, m) r = (h, m @ [(k, r)])"
      using True Cons.prems(1) by (simp add: dedup_step_merge_def map_has_def map_set_def)
    have "fst (foldl dedup_step_merge (h, m @ [(k, r)]) rs) r =
           foldl merge_record (h r) (map h (filter (\<lambda>x. indi_id (h x) = k) rs))"
    proof (rule merge_loop_known_key)
      show "map_of (m @ [(k, r)]) k = Some r"
        using Cons.prems(1) by (simp add: map_add_def)
      show "\<forall>(k', v) \<in> set (m @ [(k, r)]). indi_id (h v) = k'"
        using Cons.prems(2) True by auto
      show "distinct rs" using Cons.prems(3) by simp
      show "snd ` set (m @ [(k, r)]) \<inter> set rs = {}"
        using Cons.prems(3,4) by auto
    qed
    moreover have "filter (\<lambda>x. indi_id (h x) = k \<and> x \<noteq> r) rs = filter (\<lambda>x. indi_id (h x) = k) rs"
      using Cons.prems(3) by (auto intro: filter_cong)
    ultimately show ?thesis using step er by simp
  next
    case False
    then have f: "find (\<lambda>r. indi_id (h r) = k) rs = Some e"
      using Cons.prems(5) by simp
    then have e_in: "e \<in> set rs"
      by (auto simp: find_Some_iff)
    show ?thesis
    proof (cases "map_of m (indi_id (h r))")
      case None
      then have step: "dedup_step_merge (h, m) r = (h, m @ [(indi_id (h r), r)])"
        by (simp add: dedup_step_merge_def map_has_def map_set_def)
      have "fst (foldl dedup_step_merge (h, m @ [(indi_id (h r), r)]) rs) e =
           foldl merge_record (h e) (map h (filter (\<lambda>r. indi_id (h r) = k \<and> r \<noteq> e) rs))"
      proof (rule Cons.IH)
        show "map_of (m @ [(indi_id (h r), r)]) k = None"
          using Cons.prems(1) False by (simp add: map_add_def)
        show "\<forall>(k', v) \<in> set (m @ [(indi_id (h r), r)]). indi_id (h v) = k'"
          using Cons.prems(2) by auto
        show "distinct rs" using Cons.prems(3) by simp
        show "snd ` set (m @ [(indi_id (h r), r)]) \<inter> set rs = {}"
          using Cons.prems(3,4) by auto
        show "find (\<lambda>r. indi_id (h r) = k) rs = Some e" by (rule f)
      qed
      then show ?thesis using step False by simp
    next
      case (Some e')
      define h' where "h' = h(e' := merge_record (h e') (h r))"
      have step: "dedup_step_merge (h, m) r = (h', m)"
        using Some by (simp add: dedup_step_merge_def map_has_def map_get_def merge_into_eq h'_def)
      have e'_in: "e' \<in> snd ` set m"
        using Some by (metis image_eqI map_of_SomeD snd_conv)
      have ids: "indi_id (h' x) = indi_id (h x)" for x
        by (simp add: merge_record_def h'_def)
      have rest: "h' x = h x" if "x \<in> set rs" for x
        using that e'_in Cons.prems(4) by (auto simp: h'_def)
      have ih: "fst (foldl dedup_step_merge (h', m) rs) e =
           foldl merge_record (h' e) (map h' (filter (\<lambda>r. indi_id (h' r) = k \<and> r \<noteq> e) rs))"
      proof (rule Cons.IH)
        show "map_of m k = None" by (rule Cons.prems(1))
        show "\<forall>(k', v) \<in> set m. indi_id (h' v) = k'"
          using Cons.prems(2) unfolding ids .
        show "distinct rs" using Cons.prems(3) by simp
        show "snd ` set m \<inter> set rs = {}" using Cons.prems(4) by auto
        show "find (\<lambda>r. indi_id (h' r) = k) rs = Some e" unfolding ids by (rule f)
      qed
      have maps: "map h' (filter (\<lambda>r. indi_id (h' r) = k \<and> r \<noteq> e) rs) =
                map h (filter (\<lambda>r. indi_id (h r) = k \<and> r \<noteq> e) rs)"
        unfolding ids using rest by (auto intro: map_cong)
      show ?thesis using step ih maps rest[OF e_in] False by simp
    qed
  qed
qed

lemma uniqueIndis_merge_first:
  assumes "distinct rs" and "find (\<lambda>r. indi_id (h r) = k) rs = Some e"
  shows "fst (uniqueIndis_merge h rs) e =
           foldl merge_record (h e) (map h (filter (\<lambda>r. indi_id (h r) = k \<and> r \<noteq> e) rs))"
  unfolding uniqueIndis_merge_def
  by (rule merge_loop_new_key) (use assms in simp_all)

lemma renderChart_store:
  assumes "initialRender args \<or> (\<not> animating w \<and> \<not> freezeAnimation props)"
  shows "store (world_of (renderChart v lib props loc args w)) =
           fst (filterData v (store w) (data props))"
proof (cases rule: renderChart_cases[of args w v lib props loc])
  case (rendered c w1)
  from prepareChart_frame(1)[OF rendered(2)] show ?thesis
    by (simp add: rendered(4) applyLayout_def Let_def)
qed (use assms in simp_all)


lemma round_even_error: "\<bar>of_int (round_even t) - t\<bar> \<le> 1 / 2"
proof -
  have "of_int \<lfloor>t\<rfloor> \<le> t" "t < of_int \<lfloor>t\<rfloor> + 1" by linarith+
  then show ?thesis
    by (auto simp: round_even_def Let_def)
qed

lemma to_double_zero: "to_double 0 = Num 0"
  by (simp add: to_double_def round_even_def)

lemma to_double_scaled:
  fixes c :: nat
  assumes lo: "2 ^ 52 \<le> \<bar>x\<bar> * 2 ^ 1074 / 2 ^ c"
      and hi: "\<bar>x\<bar> * 2 ^ 1074 / 2 ^ c < 2 ^ 53"
      and mx: "\<bar>x\<bar> \<le> 2 ^ 1023"
  shows "to_double x = Num (of_int (round_even (x * 2 ^ 1074 / 2 ^ c)) * 2 ^ c / 2 ^ 1074) \<and>
         \<bar>of_int (round_even (x * 2 ^ 1074 / 2 ^ c)) * 2 ^ c / 2 ^ 1074 - x\<bar> \<le> \<bar>x\<bar> / 2 ^ 53"
proof -
  define y where "y = x * 2 ^ 1074"
  define n where "n = \<lfloor>\<bar>y\<bar>\<rfloor>"
  have ay: "\<bar>y\<bar> = \<bar>x\<bar> * 2 ^ 1074" by (simp add: y_def abs_mult)
  have ylo: "2 ^ (52 + c) \<le> \<bar>y\<bar>"
    using lo unfolding ay by (simp add: power_add field_simps)
  have yhi: "\<bar>y\<bar> < 2 ^ (53 + c)"
    using hi unfolding ay by (simp add: power_add field_simps)
  have nlo: "2 ^ (52 + c) \<le> n"
  proof -
    have "of_int (2 ^ (52 + c)) \<le> \<bar>y\<bar>" using ylo by simp
    then show ?thesis unfolding n_def by (simp only: le_floor_iff)
  qed
  have nhi: "n < 2 ^ (53 + c)"
  proof -
    have "\<bar>y\<bar> < of_int (2 ^ (53 + c))" using yhi by simp
    then show ?thesis unfolding n_def by (simp only: floor_less_iff)
  qed
  have "bitlen n \<le> int (53 + c)"
    using nhi by (simp add: bitlen_le_iff_power nat_add_distrib)
  moreover have "int (53 + c) \<le> bitlen n"
    using nlo by (simp add: bitlen_ge_iff_power nat_add_distrib)
  ultimately have bl: "bitlen n = int (53 + c)" by simp
  have s: "nat (bitlen \<lfloor>\<bar>y\<bar>\<rfloor> - 53) = c"
    using bl by (simp add: n_def)
  define m where "m = round_even (y / 2 ^ c)"
  define r where "r = of_int m * 2 ^ c / (2 ^ 1074 :: real)"
  have "\<bar>of_int m - y / 2 ^ c\<bar> \<le> 1 / 2" unfolding m_def by (rule round_even_error)
  then have "\<bar>of_int m * 2 ^ c - y\<bar> \<le> 2 ^ c / 2"
    by (simp add: field_simps abs_le_iff)
  then have "\<bar>r - x\<bar> \<le> 2 ^ c / 2 / 2 ^ 1074"
    unfolding r_def y_def by (simp add: field_simps abs_le_iff)
  moreover have "2 ^ c / 2 / (2 ^ 1074 :: real) \<le> \<bar>x\<bar> / 2 ^ 53"
    using lo by (simp add: field_simps)
  ultimately have err: "\<bar>r - x\<bar> \<le> \<bar>x\<bar> / 2 ^ 53" by linarith
  have "\<bar>x\<bar> / 2 ^ 53 \<le> 2 ^ 1023 / (2 ^ 53 :: real)"
    using mx by (simp add: divide_right_mono)
  then have "\<bar>r\<bar> \<le> 2 ^ 1023 + 2 ^ 1023 / (2 ^ 53 :: real)" using err mx by linarith
  also have "\<dots> < 2 ^ 1024" by simp
  finally have nov: "\<bar>r\<bar> < 2 ^ 1024" .
  have "to_double x = (if 2 ^ 1024 \<le> r then Infinity
         else if r \<le> - (2 ^ 1024) then NegInfinity else Num r)"
    unfolding to_double_def Let_def y_def[symmetric] s m_def[symmetric] r_def ..
  then have "to_double x = Num r" using nov by (simp add: abs_less_iff)
  with err show ?thesis unfolding r_def m_def y_def by simp
qed


lemma to_double_error:
  assumes lo: "1 / 2 ^ 1022 \<le> \<bar>x\<bar>" and mx: "\<bar>x\<bar> \<le> 2 ^ 1023"
  shows "\<exists>r. to_double x = Num r \<and> \<bar>r - x\<bar> \<le> \<bar>x\<bar> / 2 ^ 53"
proof -
  define n where "n = \<lfloor>\<bar>x\<bar> * 2 ^ 1074\<rfloor>"
  have ylo: "2 ^ 52 \<le> \<bar>x\<bar> * 2 ^ 1074"
  proof -
    have "(2 ^ 52 :: real) = 1 / 2 ^ 1022 * 2 ^ 1074" by simp
    also have "\<dots> \<le> \<bar>x\<bar> * 2 ^ 1074" using lo by (intro mult_right_mono) simp_all
    finally show ?thesis .
  qed
  have "of_int (2 ^ 52) \<le> \<bar>x\<bar> * 2 ^ 1074" using ylo by simp
  then have n52: "2 ^ 52 \<le> n" unfolding n_def by (simp only: le_floor_iff)
  then have npos: "0 < n" by (smt (verit) zero_less_power)
  have b53: "53 \<le> bitlen n" using n52 by (simp add: bitlen_ge_iff_power)
  define c where "c = nat (bitlen n - 53)"
  have e1: "nat (bitlen n - 1) = 52 + c" and e2: "nat (bitlen n) = 53 + c"
    using b53 by (simp_all add: c_def)
  from bitlen_bounds[OF npos] have nb: "2 ^ (52 + c) \<le> n" "n < 2 ^ (53 + c)"
    unfolding e1 e2 by simp_all
  have "of_int n \<le> \<bar>x\<bar> * 2 ^ 1074" unfolding n_def by simp
  moreover have "(2 ^ (52 + c) :: real) \<le> of_int n"
    using nb(1) by (metis of_int_le_iff of_int_numeral of_int_power)
  ultimately have l: "2 ^ (52 + c) \<le> \<bar>x\<bar> * 2 ^ 1074" by linarith
  have "\<bar>x\<bar> * 2 ^ 1074 < of_int n + 1" unfolding n_def by linarith
  moreover have "of_int n + 1 \<le> (2 ^ (53 + c) :: real)"
  proof -
    have "n + 1 \<le> 2 ^ (53 + c)" using nb(2) by simp
    then have "of_int (n + 1) \<le> (of_int (2 ^ (53 + c)) :: real)" by (simp only: of_int_le_iff)
    then show ?thesis by simp
  qed
  ultimately have h: "\<bar>x\<bar> * 2 ^ 1074 < 2 ^ (53 + c)" by linarith
  have "2 ^ 52 \<le> \<bar>x\<bar> * 2 ^ 1074 / 2 ^ c" "\<bar>x\<bar> * 2 ^ 1074 / 2 ^ c < 2 ^ 53"
    using l h by (simp_all add: power_add field_simps)
  from to_double_scaled[OF this mx] show ?thesis by blast
qed


lemma normal_bounds:
  assumes "normal x"
  shows "1 / 2 ^ 1022 \<le> \<bar>x\<bar>" and "\<bar>x\<bar> \<le> 2 ^ 1023"
    and "1 / 2 ^ 1022 \<le> \<bar>x\<bar> / 2" and "2 * \<bar>x\<bar> \<le> 2 ^ 1023" and "0 < \<bar>x\<bar>"
proof -
  define P :: real where "P = 2 ^ 1021"
  have P: "0 < P" by (simp add: P_def)
  have p2: "(2 :: real) ^ 1022 = 2 * P" and p3: "(2 :: real) ^ 1023 = 4 * P"
    by (simp_all add: P_def)
  have lo: "1 / P \<le> \<bar>x\<bar>" and hi: "\<bar>x\<bar> \<le> 2 * P"
    using assms by (simp_all add: normal_def P_def)
  define Q :: real where "Q = 1 / P"
  have Q: "0 < Q" using P by (simp add: Q_def)
  have h: "1 / (2 * P) = Q / 2" by (simp add: Q_def)
  have lo': "Q \<le> \<bar>x\<bar>" using lo by (simp add: Q_def)
  show "0 < \<bar>x\<bar>" using lo' Q by linarith
  show "1 / 2 ^ 1022 \<le> \<bar>x\<bar>" unfolding p2 h using lo' Q by linarith
  show "\<bar>x\<bar> \<le> 2 ^ 1023" unfolding p3 using hi P by linarith
  show "1 / 2 ^ 1022 \<le> \<bar>x\<bar> / 2" unfolding p2 h using lo' by linarith
  show "2 * \<bar>x\<bar> \<le> 2 ^ 1023" unfolding p3 using hi by linarith
qed

lemma snapshot_length_close:
  assumes "normal X" and "normal (X * k)"
  shows "\<exists>x. jsnum_div (to_double (X * k)) k = Num x \<and> \<bar>x - X\<bar> \<le> \<bar>X\<bar> / 2 ^ 51"
proof -
  note X = normal_bounds[OF assms(1)] and Xk = normal_bounds[OF assms(2)]
  have k0: "k \<noteq> 0" using Xk(5) by auto
  define u :: real where "u = 1 / 2 ^ 53"
  have u: "0 < u" "u \<le> 1 / 2" "4 * u = 1 / 2 ^ 51" by (simp_all add: u_def)
  have du: "y / 2 ^ 53 = y * u" for y :: real by (simp add: u_def)
  from to_double_error[OF Xk(1) Xk(2)] obtain a where
    a: "to_double (X * k) = Num a" "\<bar>a - X * k\<bar> \<le> \<bar>X * k\<bar> * u" unfolding du by blast
  have "\<bar>a / k - X\<bar> = \<bar>a - X * k\<bar> / \<bar>k\<bar>"
    using k0 by (simp add: field_simps flip: abs_divide)
  also have "\<dots> \<le> \<bar>X * k\<bar> * u / \<bar>k\<bar>"
    using a(2) by (intro divide_right_mono) simp_all
  also have "\<dots> = \<bar>X\<bar> * u" using k0 by (simp add: abs_mult)
  finally have q: "\<bar>a / k - X\<bar> \<le> \<bar>X\<bar> * u" .
  have xu: "\<bar>X\<bar> * u \<le> \<bar>X\<bar> / 2"
    using mult_left_mono[OF u(2), of "\<bar>X\<bar>"] by simp
  have qhi: "\<bar>a / k\<bar> \<le> 2 * \<bar>X\<bar>" and qlo: "\<bar>X\<bar> / 2 \<le> \<bar>a / k\<bar>"
    using q xu X(5) by linarith+
  have r1: "1 / 2 ^ 1022 \<le> \<bar>a / k\<bar>" using qlo X(3) by (rule order_trans[rotated])
  have r2: "\<bar>a / k\<bar> \<le> 2 ^ 1023" using qhi X(4) by (rule order_trans)
  from to_double_error[OF r1 r2] obtain b where
    b: "to_double (a / k) = Num b" "\<bar>b - a / k\<bar> \<le> \<bar>a / k\<bar> * u" unfolding du by blast
  have "\<bar>a / k\<bar> * u \<le> (2 * \<bar>X\<bar>) * u"
    using qhi u(1) by (intro mult_right_mono) simp_all
  then have "\<bar>b - X\<bar> \<le> 2 * \<bar>X\<bar> * u + \<bar>X\<bar> * u" using b(2) q by linarith
  also have "\<dots> \<le> \<bar>X\<bar> * (4 * u)" using X(5) u(1) by (simp add: algebra_simps)
  also have "\<dots> = \<bar>X\<bar> / 2 ^ 51" unfolding u(3) by simp
  finally have "\<bar>b - X\<bar> \<le> \<bar>X\<bar> / 2 ^ 51" .
  moreover have "jsnum_div (to_double (X * k)) k = Num b"
    using a(1) b(1) k0 by (simp add: jsnum_div_def double_div_def)
  ultimately show ?thesis by blast
qed

lemma snapshot_length_unit:
  assumes "to_double X = Num X"
  shows "jsnum_div (to_double (X * 1)) 1 = Num X"
  using assms by (simp add: jsnum_div_def double_div_def)

lemma getStrippedSvg_eq:
  assumes "width (chartSvg w) = Some (Num a)" and "height (chartSvg w) = Some (Num b)"
  shows "getStrippedSvg w =
           (chartSvg w)\<lparr>transform := None,
                        width := Some (jsnum_div (to_double a) (zoom_k w)),
                        height := Some (jsnum_div (to_double b) (zoom_k w)),
                        chart_transform := None\<rparr>"
  using assms by (simp add: getStrippedSvg_def Let_def attr_Number_def)


lemma ex_zoomed_state:
  "zoom_k ex_zoomed = ex_k13"
  "width (chartSvg ex_zoomed) = Some (Num (1584 * zoom_k ex_zoomed))"
  "height (chartSvg ex_zoomed) = Some (Num (1200 * zoom_k ex_zoomed))"
  "chart_transform (chartSvg ex_zoomed) = Some ex_k13"
  "transform (chartSvg ex_zoomed) \<noteq> None"
  "images (chartSvg ex_zoomed) = []"
  by (simp_all add: ex_zoomed_def zoom_event_def zoomed_def ex_lib_wide_def render_defs
        dedup_defs ex_defs)

lemma round_even_eval:
  "round_even (1584 * ex_k13 * 2 ^ 1074 / 2 ^ 1033) = 4528228687832679"
  "round_even (4528228687832679 / 2 ^ 41 / ex_k13 * 2 ^ 1074 / 2 ^ 1032) = 6966505673588737"
  by (simp_all add: ex_k13_def round_even_def Let_def)


lemma ex_double_product: "to_double (1584 * ex_k13) = Num (4528228687832679 / 2 ^ 41)"
proof -
  have "2 ^ 52 \<le> \<bar>1584 * ex_k13\<bar> * 2 ^ 1074 / 2 ^ 1033"
    "\<bar>1584 * ex_k13\<bar> * 2 ^ 1074 / 2 ^ 1033 < 2 ^ 53" "\<bar>1584 * ex_k13\<bar> \<le> 2 ^ 1023"
    by (simp_all add: ex_k13_def)
  from to_double_scaled[OF this] show ?thesis
    unfolding round_even_eval by simp
qed

lemma ex_double_quotient:
  "to_double (4528228687832679 / 2 ^ 41 / ex_k13) = Num (1584 + 1 / 2 ^ 42)"
proof -
  have "2 ^ 52 \<le> \<bar>4528228687832679 / 2 ^ 41 / ex_k13\<bar> * 2 ^ 1074 / 2 ^ 1032"
    "\<bar>4528228687832679 / 2 ^ 41 / ex_k13\<bar> * 2 ^ 1074 / 2 ^ 1032 < 2 ^ 53"
    "\<bar>4528228687832679 / 2 ^ 41 / ex_k13\<bar> \<le> 2 ^ 1023"
    by (simp_all add: ex_k13_def)
  from to_double_scaled[OF this] show ?thesis
    unfolding round_even_eval by simp
qed

lemma jsnum_div_Num: "k \<noteq> 0 \<Longrightarrow> jsnum_div (Num a) k = to_double (a / k)"
  by (simp add: jsnum_div_def double_div_def)

lemma ex_snapshot_width:
  "jsnum_div (to_double (1584 * ex_k13)) ex_k13 = Num (1584 + 1 / 2 ^ 42)"
proof -
  have "ex_k13 \<noteq> 0" by (simp add: ex_k13_def)
  then have "jsnum_div (to_double (1584 * ex_k13)) ex_k13 =
      to_double (4528228687832679 / 2 ^ 41 / ex_k13)"
    unfolding ex_double_product by (rule jsnum_div_Num)
  then show ?thesis by (simp only: ex_double_quotient)
qed


lemma ex_normal: "normal 1584" "normal (1584 * ex_k13)" "normal 1200" "normal (1200 * ex_k13)"
  by (simp_all add: normal_def ex_k13_def)

lemma ex_unzoomed_state:
  "zoom_k ex_unzoomed = 1"
  "width (chartSvg ex_unzoomed) = Some (Num (1584 * zoom_k ex_unzoomed))"
  "height (chartSvg ex_unzoomed) = Some (Num (1200 * zoom_k ex_unzoomed))"
  "images (chartSvg ex_unzoomed) = []"
  by (simp_all add: ex_unzoomed_def ex_lib_wide_def render_defs dedup_defs ex_defs)

lemma ex_double_exact: "to_double 1584 = Num 1584"
proof -
  have "2 ^ 52 \<le> \<bar>1584 :: real\<bar> * 2 ^ 1074 / 2 ^ 1032"
    "\<bar>1584 :: real\<bar> * 2 ^ 1074 / 2 ^ 1032 < 2 ^ 53" "\<bar>1584 :: real\<bar> \<le> 2 ^ 1023"
    by simp_all
  from to_double_scaled[OF this] show ?thesis
    by (simp add: round_even_def Let_def)
qed

section \<open>Zoom bounds\<close>

text \<open>
  C5. A render that is neither deferred nor frozen installs a zoom behaviour whose scale
  extent has the maximum 2 and, for a chart whose reported width and height are not zero,
  the minimum \<open>min (clientWidth / width) (clientHeight / height)\<close>.
\<close>

theorem renderChart_scaleExtent:
  assumes "initialRender args \<or> (\<not> animating w \<and> \<not> freezeAnimation props)"
      and "renderChart v lib props locale args w = Done w'"
  shows "\<exists>c zb. chart w' = Some c \<and> zoomBehavior w' = Some zb \<and> snd (scaleExtent zb) = Num 2 \<and>
      (let ci = layout lib c (info_id (selection props)) (generation (selection props)) in
         fst (chart_size ci) \<noteq> 0 \<longrightarrow> snd (chart_size ci) \<noteq> 0 \<longrightarrow>
         fst (scaleExtent zb) =
           Some (Num (min (clientWidth w / fst (chart_size ci)) (clientHeight w / snd (chart_size ci)))))"
proof -
  from renderChart_rendered[OF assms] obtain c w1 where
    p: "prepareChart v lib props locale args (snd (filterData v (store w) (data props)))
          (w\<lparr>store := fst (filterData v (store w) (data props))\<rparr>) = Done w1"
    and c: "chart w1 = Some c" and w': "w' = applyLayout lib props locale args c w1"
    by blast
  from prepareChart_frame[OF p] have cw: "clientWidth w1 = clientWidth w" "clientHeight w1 = clientHeight w"
    by simp_all
  show ?thesis
    unfolding w' using c cw
    by (simp add: applyLayout_chart applyLayout_zoom calc_max calc_min Let_def)
qed



theorem renderChart_scaleExtent_witness:
  "initialRender \<lparr>initialRender = True, resetPosition = True\<rparr> \<and>
   is_Done (renderChart FirstWins ex_lib ex_props ''en'' \<lparr>initialRender = True, resetPosition = True\<rparr> ex_world) \<and>
   map_option scaleExtent (zoomBehavior (world_of
      (renderChart FirstWins ex_lib ex_props ''en'' \<lparr>initialRender = True, resetPosition = True\<rparr> ex_world)))
     = Some (Some (Num (3 / 2)), Num 2)"
proof -
  let ?a = "\<lparr>initialRender = True, resetPosition = True\<rparr>"
  let ?r = "renderChart FirstWins ex_lib ex_props ''en'' ?a ex_world"
  have d: "is_Done ?r" by (simp add: render_defs dedup_defs ex_defs)
  have g: "initialRender ?a \<or> (\<not> animating ex_world \<and> \<not> freezeAnimation ex_props)" by simp
  from renderChart_scaleExtent[OF g Done_world_of[OF d]] obtain c zb where
    "zoomBehavior (world_of ?r) = Some zb" "snd (scaleExtent zb) = Num 2"
    "fst (scaleExtent zb) = Some (Num (min (clientWidth ex_world / 400) (clientHeight ex_world / 300)))"
    by (auto simp: ex_lib_def Let_def)
  then show ?thesis using d by (simp add: ex_world_def prod_eq_iff)
qed

section \<open>Scroll position\<close>

text \<open>
  C7. An initial render with \<open>resetPosition\<close> returns with the scroll offsets set to
  \<open>origin * scale - client size / 2\<close> on each axis; a render without \<open>resetPosition\<close>
  leaves both offsets as they were and gives no scroll tween to the transition it schedules.
\<close>

theorem renderChart_scroll:
  "(initialRender args \<and> resetPosition args \<longrightarrow>
      (\<exists>w' c. renderChart v lib props loc args w = Done w' \<and> chart w' = Some c \<and>
         scrollLeft w' =
           fst (chart_origin (layout lib c (info_id (selection props)) (generation (selection props))))
             * zoom_k w - clientWidth w / 2 \<and>
         scrollTop w' =
           snd (chart_origin (layout lib c (info_id (selection props)) (generation (selection props))))
             * zoom_k w - clientHeight w / 2)) \<and>
   (\<not> resetPosition args \<longrightarrow>
      scrollLeft (world_of (renderChart v lib props loc args w)) = scrollLeft w \<and>
      scrollTop (world_of (renderChart v lib props loc args w)) = scrollTop w \<and>
      (\<forall>t \<in> set (drop (length (transitions w))
                    (transitions (world_of (renderChart v lib props loc args w)))).
         t_scrollLeft t = None \<and> t_scrollTop t = None))"
proof (cases rule: renderChart_cases[of args w v lib props loc])
  case deferred
  then show ?thesis by simp
next
  case frozen
  then show ?thesis by simp
next
  case threw
  then show ?thesis by simp
next
  case (rendered c w1)
  note fr = prepareChart_frame[OF rendered(2)]
  obtain t where t: "transitions (applyLayout lib props loc args c w1) = transitions w1 @ [t]"
     "\<not> resetPosition args \<longrightarrow> t_scrollLeft t = None \<and> t_scrollTop t = None"
    using applyLayout_transitions by blast
  show ?thesis
    using rendered(3) t fr
    by (simp add: rendered(4) applyLayout_scroll applyLayout_chart)
qed


theorem renderChart_scroll_witness:
  "scrollLeft (world_of (renderChart Merging ex_lib ex_props ''en''
       \<lparr>initialRender = True, resetPosition = True\<rparr> ex_world)) = 0 \<and>
   scrollTop (world_of (renderChart Merging ex_lib ex_props ''en''
       \<lparr>initialRender = True, resetPosition = True\<rparr> ex_world)) = - 25 \<and>
   scrollLeft (world_of (renderChart Merging ex_lib ex_props ''en''
       \<lparr>initialRender = True, resetPosition = False\<rparr> (ex_world\<lparr>scrollLeft := 7\<rparr>))) = 7"
proof -
  let ?a = "\<lparr>initialRender = True, resetPosition = True\<rparr>"
  let ?b = "\<lparr>initialRender = True, resetPosition = False\<rparr>"
  have "initialRender ?a \<and> resetPosition ?a" by simp
  with renderChart_scroll[of ?a Merging ex_lib ex_props "''en''" ex_world]
  obtain w' c where "renderChart Merging ex_lib ex_props ''en'' ?a ex_world = Done w'"
    "scrollLeft w' = fst (chart_origin (layout ex_lib c (info_id (selection ex_props))
        (generation (selection ex_props)))) * zoom_k ex_world - clientWidth ex_world / 2"
    "scrollTop w' = snd (chart_origin (layout ex_lib c (info_id (selection ex_props))
        (generation (selection ex_props)))) * zoom_k ex_world - clientHeight ex_world / 2"
    by blast
  then have 1: "scrollLeft (world_of (renderChart Merging ex_lib ex_props ''en'' ?a ex_world)) = 0"
    "scrollTop (world_of (renderChart Merging ex_lib ex_props ''en'' ?a ex_world)) = - 25"
    by (simp_all add: ex_lib_def ex_world_def)
  have "\<not> resetPosition ?b" by simp
  with renderChart_scroll[of ?b Merging ex_lib ex_props "''en''" "ex_world\<lparr>scrollLeft := 7\<rparr>"]
  have "scrollLeft (world_of (renderChart Merging ex_lib ex_props ''en'' ?b (ex_world\<lparr>scrollLeft := 7\<rparr>))) = 7"
    by simp
  with 1 show ?thesis by simp
qed

section \<open>The pending rerender\<close>



section \<open>Frozen requests\<close>

text \<open>
  C3, as amended. A request that is not initial and has \<open>freezeAnimation\<close> set changes
  nothing when no animation runs. While an animation runs it is stored in the pending slot
  like any other request (the check of \<open>animating\<close> comes first), and dropped when the
  callback of the animation promise replays it.
\<close>

theorem renderChart_freeze:
  assumes "\<not> initialRender args" and "freezeAnimation props"
  shows "(\<not> animating w \<longrightarrow> renderChart v lib props loc args w = Done w) \<and>
     (animating w \<longrightarrow>
        renderChart v lib props loc args w =
          Done (w\<lparr>rerenderRequired := True, rerenderProps := Some props,
                  rerenderResetPosition := Some (resetPosition args)\<rparr>) \<and>
        animationDone v lib loc
          (w\<lparr>rerenderRequired := True, rerenderProps := Some props,
             rerenderResetPosition := Some (resetPosition args)\<rparr>) =
          Done (w\<lparr>animating := False, rerenderRequired := False, rerenderProps := Some props,
                  rerenderResetPosition := Some (resetPosition args)\<rparr>))"
  using assms by (simp add: renderChart_def animationDone_def Let_def)

theorem renderChart_freeze_witness:
  "renderChart Merging ex_lib (ex_props\<lparr>freezeAnimation := True\<rparr>) ''en''
      \<lparr>initialRender = False, resetPosition = True\<rparr> ex_world = Done ex_world \<and>
   \<not> animating ex_world \<and>
   animating (ex_world\<lparr>animating := True\<rparr>) \<and>
   world_of (animationDone Merging ex_lib ''en'' (world_of
     (renderChart Merging ex_lib (ex_props\<lparr>freezeAnimation := True\<rparr>) ''en''
        \<lparr>initialRender = False, resetPosition = True\<rparr> (ex_world\<lparr>animating := True\<rparr>)))) =
     ex_world\<lparr>rerenderProps := Some (ex_props\<lparr>freezeAnimation := True\<rparr>),
              rerenderResetPosition := Some True\<rparr>"
proof -
  let ?p = "ex_props\<lparr>freezeAnimation := True\<rparr>"
  let ?a = "\<lparr>initialRender = False, resetPosition = True\<rparr>"
  have 1: "\<not> initialRender ?a" by simp
  have 2: "freezeAnimation ?p" by simp
  have 3: "\<not> animating ex_world" by (simp add: ex_world_def)
  from renderChart_freeze[OF 1 2, of ex_world Merging ex_lib "''en''"] 3
  have A: "renderChart Merging ex_lib ?p ''en'' ?a ex_world = Done ex_world" by simp
  from renderChart_freeze[OF 1 2, of "ex_world\<lparr>animating := True\<rparr>" Merging ex_lib "''en''"]
  have B: "world_of (animationDone Merging ex_lib ''en'' (world_of
     (renderChart Merging ex_lib ?p ''en'' ?a (ex_world\<lparr>animating := True\<rparr>)))) =
     ex_world\<lparr>rerenderProps := Some ?p, rerenderResetPosition := Some True\<rparr>"
    by (simp add: ex_world_def)
  from A B 3 show ?thesis by simp
qed

text \<open>
  The claim as stated fails: a frozen request made during an animation occupies the slot.
\<close>

theorem renderChart_freeze_counterexample:
  "renderChart FirstWins ex_lib (ex_props\<lparr>freezeAnimation := True\<rparr>) ''en''
      \<lparr>initialRender = False, resetPosition = False\<rparr> (ex_world\<lparr>animating := True\<rparr>)
     \<noteq> Done (ex_world\<lparr>animating := True\<rparr>) \<and>
   \<not> rerenderRequired (ex_world\<lparr>animating := True\<rparr>) \<and>
   rerenderRequired (world_of
     (renderChart FirstWins ex_lib (ex_props\<lparr>freezeAnimation := True\<rparr>) ''en''
        \<lparr>initialRender = False, resetPosition = False\<rparr> (ex_world\<lparr>animating := True\<rparr>))) \<and>
   rerenderProps (world_of
     (renderChart FirstWins ex_lib (ex_props\<lparr>freezeAnimation := True\<rparr>) ''en''
        \<lparr>initialRender = False, resetPosition = False\<rparr> (ex_world\<lparr>animating := True\<rparr>)))
     = Some (ex_props\<lparr>freezeAnimation := True\<rparr>)"
  by (simp add: renderChart_def ex_world_def)


section \<open>Update or rebuild\<close>

text \<open>
  C4. On a render that is not initial, not deferred and not frozen, with a chart handle
  present: a handle with \<open>setData\<close> gets the deduplicated dataset and stays, and no
  handle is built; a handle without \<open>setData\<close> is replaced by a new one built from the
  options of the initial path. The second variant declares its handle with the library's
  type, which has \<open>setData\<close>, so there the handle is one with \<open>setData\<close>.
\<close>

theorem renderChart_update_or_rebuild:
  assumes "\<not> initialRender args" and "\<not> animating w" and "\<not> freezeAnimation props"
      and "chart w = Some c"
      and "v = FirstWins \<longrightarrow> has_setData c"
  shows "(has_setData c \<longrightarrow>
            (\<exists>w'. renderChart v lib props loc args w = Done w' \<and>
               chart w' = Some (c\<lparr>held_data := snd (filterData v (store w) (data props))\<rparr>) \<and>
               calls w' = calls w @
                 [SetData (snd (filterData v (store w) (data props))),
                  Render (info_id (selection props)) (generation (selection props))])) \<and>
         (\<not> has_setData c \<longrightarrow>
            (\<exists>w'. renderChart v lib props loc args w = Done w' \<and>
               chart w' = Some
                 \<lparr>built_from = chartOptions props loc (snd (filterData v (store w) (data props))),
                  held_data = snd (filterData v (store w) (data props)),
                  has_setData = gives_setData lib
                    (chartOptions props loc (snd (filterData v (store w) (data props))))\<rparr> \<and>
               calls w' = calls w @
                 [CreateChart (chartOptions props loc (snd (filterData v (store w) (data props)))),
                  Render (info_id (selection props)) (generation (selection props))])) \<and>
         (\<forall>args'. initialRender args' \<longrightarrow>
            (\<exists>w'. renderChart v lib props loc args' w = Done w' \<and>
               calls w' = calls w @
                 [ClearChart,
                  CreateChart (chartOptions props loc (snd (filterData v (store w) (data props)))),
                  Render (info_id (selection props)) (generation (selection props))]))"
proof -
  have json: "opt_json (chartOptions props loc x) = x" for x
    by (simp add: chartOptions_def)
  show ?thesis
    using assms
    by (cases v)
       (auto simp: renderChart_def case_prod_beta json prepareChart_def setData_def
                   createChart_def applyLayout_chart applyLayout_calls)
qed

theorem renderChart_update_or_rebuild_witness:
  "\<not> has_setData ex_handle \<and>
   calls (world_of (renderChart Merging ex_lib ex_props ''en''
      \<lparr>initialRender = False, resetPosition = False\<rparr> (ex_world\<lparr>chart := Some ex_handle\<rparr>))) =
     [CreateChart (chartOptions ex_props ''en'' \<lparr>indis = [0, 1], gfams = []\<rparr>), Render ''I1'' 0] \<and>
   calls (world_of (renderChart Merging ex_lib ex_props ''en''
      \<lparr>initialRender = False, resetPosition = False\<rparr>
      (ex_world\<lparr>chart := Some (ex_handle\<lparr>has_setData := True\<rparr>)\<rparr>))) =
     [SetData \<lparr>indis = [0, 1], gfams = []\<rparr>, Render ''I1'' 0] \<and>
   calls (world_of (renderChart FirstWins ex_lib ex_props ''en''
      \<lparr>initialRender = False, resetPosition = False\<rparr>
      (ex_world\<lparr>chart := Some (ex_handle\<lparr>has_setData := True\<rparr>)\<rparr>))) =
     [SetData \<lparr>indis = [0, 1], gfams = []\<rparr>, Render ''I1'' 0]"
proof -
  let ?a = "\<lparr>initialRender = False, resetPosition = False\<rparr>"
  let ?w = "ex_world\<lparr>chart := Some ex_handle\<rparr>"
  let ?w2 = "ex_world\<lparr>chart := Some (ex_handle\<lparr>has_setData := True\<rparr>)\<rparr>"
  have fd: "snd (filterData Merging ex_heap (data ex_props)) = \<lparr>indis = [0, 1], gfams = []\<rparr>"
    "snd (filterData FirstWins ex_heap (data ex_props)) = \<lparr>indis = [0, 1], gfams = []\<rparr>"
    by (simp_all add: dedup_defs ex_defs)
  have g: "\<not> initialRender ?a" "\<not> animating ?w" "\<not> freezeAnimation ex_props" "chart ?w = Some ex_handle"
     "\<not> animating ?w2" "chart ?w2 = Some (ex_handle\<lparr>has_setData := True\<rparr>)"
    by (simp_all add: ex_world_def ex_props_def)
  have n: "\<not> has_setData ex_handle" by (simp add: ex_handle_def)
  have t: "Merging = FirstWins \<longrightarrow> has_setData ex_handle"
    "Merging = FirstWins \<longrightarrow> has_setData (ex_handle\<lparr>has_setData := True\<rparr>)"
    "FirstWins = FirstWins \<longrightarrow> has_setData (ex_handle\<lparr>has_setData := True\<rparr>)"
    by simp_all
  have s: "store ?w = ex_heap" "store ?w2 = ex_heap" "calls ?w = []" "calls ?w2 = []"
    by (simp_all add: ex_world_def)
  from renderChart_update_or_rebuild[OF g(1) g(2) g(3) g(4) t(1), of ex_lib "''en''"] n
  have 1: "calls (world_of (renderChart Merging ex_lib ex_props ''en'' ?a ?w)) =
     [CreateChart (chartOptions ex_props ''en'' \<lparr>indis = [0, 1], gfams = []\<rparr>), Render ''I1'' 0]"
    unfolding s fd by (auto simp: ex_props_def)
  from renderChart_update_or_rebuild[OF g(1) g(5) g(3) g(6) t(2), of ex_lib "''en''"]
  have 2: "calls (world_of (renderChart Merging ex_lib ex_props ''en'' ?a ?w2)) =
     [SetData \<lparr>indis = [0, 1], gfams = []\<rparr>, Render ''I1'' 0]"
    unfolding s fd by (auto simp: ex_props_def)
  from renderChart_update_or_rebuild[OF g(1) g(5) g(3) g(6) t(3), of ex_lib "''en''"]
  have 3: "calls (world_of (renderChart FirstWins ex_lib ex_props ''en'' ?a ?w2)) =
     [SetData \<lparr>indis = [0, 1], gfams = []\<rparr>, Render ''I1'' 0]"
    unfolding s fd by (auto simp: ex_props_def)
  from 1 2 3 n show ?thesis by simp
qed

section \<open>The stripped copy\<close>

text \<open>
  C6, as amended. When the width and height attributes of the live chart are the natural
  size times the zoom scale \<open>k\<close>, the copy made for export has no outer transform, no
  transform on the inner group, and as width and height the double quotient by \<open>k\<close> of
  the attribute read as a double; a parser that inverts the serializer gives that element
  back. For sizes and products in the normal range the quotient is within a relative error
  of \<open>2 ^ -51\<close> of the natural size, and at scale 1 it is the natural size itself when
  that is a double.
\<close>

theorem getStrippedSvg_natural_size:
  assumes "width (chartSvg w) = Some (Num (W * zoom_k w))"
      and "height (chartSvg w) = Some (Num (H * zoom_k w))"
      and "parse (serializeToString br (getStrippedSvg w)) = Some (getStrippedSvg w)"
  shows "\<exists>bw bh.
      parse (getSvgContents br w) =
        Some ((chartSvg w)\<lparr>transform := None, width := Some bw, height := Some bh,
                           chart_transform := None\<rparr>) \<and>
      bw = jsnum_div (to_double (W * zoom_k w)) (zoom_k w) \<and>
      bh = jsnum_div (to_double (H * zoom_k w)) (zoom_k w) \<and>
      (normal W \<and> normal (W * zoom_k w) \<longrightarrow> (\<exists>x. bw = Num x \<and> \<bar>x - W\<bar> \<le> \<bar>W\<bar> / 2 ^ 51)) \<and>
      (normal H \<and> normal (H * zoom_k w) \<longrightarrow> (\<exists>y. bh = Num y \<and> \<bar>y - H\<bar> \<le> \<bar>H\<bar> / 2 ^ 51)) \<and>
      (zoom_k w = 1 \<and> to_double W = Num W \<longrightarrow> bw = Num W) \<and>
      (zoom_k w = 1 \<and> to_double H = Num H \<longrightarrow> bh = Num H)"
proof -
  let ?bw = "jsnum_div (to_double (W * zoom_k w)) (zoom_k w)"
  let ?bh = "jsnum_div (to_double (H * zoom_k w)) (zoom_k w)"
  have s: "getStrippedSvg w =
      (chartSvg w)\<lparr>transform := None, width := Some ?bw, height := Some ?bh,
                   chart_transform := None\<rparr>"
    by (rule getStrippedSvg_eq[OF assms(1) assms(2)])
  have p: "parse (getSvgContents br w) =
      Some ((chartSvg w)\<lparr>transform := None, width := Some ?bw, height := Some ?bh,
                         chart_transform := None\<rparr>)"
    using assms(3) unfolding getSvgContents_def s .
  have cw: "normal W \<and> normal (W * zoom_k w) \<longrightarrow> (\<exists>x. ?bw = Num x \<and> \<bar>x - W\<bar> \<le> \<bar>W\<bar> / 2 ^ 51)"
    using snapshot_length_close by blast
  have ch: "normal H \<and> normal (H * zoom_k w) \<longrightarrow> (\<exists>y. ?bh = Num y \<and> \<bar>y - H\<bar> \<le> \<bar>H\<bar> / 2 ^ 51)"
    using snapshot_length_close by blast
  have uw: "zoom_k w = 1 \<and> to_double W = Num W \<longrightarrow> ?bw = Num W"
    using snapshot_length_unit[of W] by auto
  have uh: "zoom_k w = 1 \<and> to_double H = Num H \<longrightarrow> ?bh = Num H"
    using snapshot_length_unit[of H] by auto
  from p cw ch uw uh show ?thesis by blast
qed

theorem getStrippedSvg_natural_size_witness:
  "width (chartSvg ex_zoomed) = Some (Num (1584 * zoom_k ex_zoomed)) \<and>
   height (chartSvg ex_zoomed) = Some (Num (1200 * zoom_k ex_zoomed)) \<and>
   chart_transform (chartSvg ex_zoomed) = Some ex_k13 \<and>
   transform (chartSvg ex_zoomed) \<noteq> None \<and>
   normal 1584 \<and> normal (1584 * zoom_k ex_zoomed) \<and>
   (\<exists>s x. ex_parse (getStrippedSvg ex_zoomed) (getSvgContents ex_browser ex_zoomed) = Some s \<and>
      transform s = None \<and> chart_transform s = None \<and>
      width s = Some (Num x) \<and> \<bar>x - 1584\<bar> \<le> 1584 / 2 ^ 51) \<and>
   zoom_k ex_unzoomed = 1 \<and> to_double 1584 = Num 1584 \<and>
   (\<exists>s. ex_parse (getStrippedSvg ex_unzoomed) (getSvgContents ex_browser ex_unzoomed) = Some s \<and>
      width s = Some (Num 1584))"
proof -
  note st = ex_zoomed_state and su = ex_unzoomed_state
  have im: "images (getStrippedSvg ex_zoomed) = []"
    unfolding getStrippedSvg_eq[OF st(2) st(3)] using st(6) by simp
  have p: "ex_parse (getStrippedSvg ex_zoomed)
      (serializeToString ex_browser (getStrippedSvg ex_zoomed)) = Some (getStrippedSvg ex_zoomed)"
    by (simp add: ex_browser_def ex_parse_def im)
  have n: "normal 1584 \<and> normal (1584 * zoom_k ex_zoomed)"
    unfolding st(1) using ex_normal by simp
  from getStrippedSvg_natural_size[where w = ex_zoomed and W = 1584 and H = 1200
      and parse = "ex_parse (getStrippedSvg ex_zoomed)" and br = ex_browser, OF st(2) st(3) p] n
  obtain bw bh x where
    "ex_parse (getStrippedSvg ex_zoomed) (getSvgContents ex_browser ex_zoomed) =
        Some ((chartSvg ex_zoomed)\<lparr>transform := None, width := Some bw, height := Some bh,
                           chart_transform := None\<rparr>)"
    "bw = Num x" "\<bar>x - 1584\<bar> \<le> \<bar>1584\<bar> / 2 ^ 51"
    by blast
  then have z: "\<exists>s x. ex_parse (getStrippedSvg ex_zoomed) (getSvgContents ex_browser ex_zoomed) = Some s \<and>
      transform s = None \<and> chart_transform s = None \<and>
      width s = Some (Num x) \<and> \<bar>x - 1584\<bar> \<le> 1584 / 2 ^ 51"
    by auto
  have imu: "images (getStrippedSvg ex_unzoomed) = []"
    unfolding getStrippedSvg_eq[OF su(2) su(3)] using su(4) by simp
  have pu: "ex_parse (getStrippedSvg ex_unzoomed)
      (serializeToString ex_browser (getStrippedSvg ex_unzoomed)) = Some (getStrippedSvg ex_unzoomed)"
    by (simp add: ex_browser_def ex_parse_def imu)
  from getStrippedSvg_natural_size[where w = ex_unzoomed and W = 1584 and H = 1200
      and parse = "ex_parse (getStrippedSvg ex_unzoomed)" and br = ex_browser, OF su(2) su(3) pu]
    su(1) ex_double_exact
  obtain bw bh where
    "ex_parse (getStrippedSvg ex_unzoomed) (getSvgContents ex_browser ex_unzoomed) =
        Some ((chartSvg ex_unzoomed)\<lparr>transform := None, width := Some bw, height := Some bh,
                           chart_transform := None\<rparr>)"
    "bw = Num 1584"
    by blast
  then have u: "\<exists>s. ex_parse (getStrippedSvg ex_unzoomed) (getSvgContents ex_browser ex_unzoomed) = Some s \<and>
      width s = Some (Num 1584)"
    by auto
  from st n z su(1) ex_double_exact u show ?thesis by blast
qed

text \<open>
  The claim as stated fails: a chart 1584 wide, zoomed once with the \<open>+\<close> button, is
  exported with the width 1584.0000000000002.
\<close>

theorem getStrippedSvg_natural_size_counterexample:
  "zoom_k ex_zoomed = ex_k13 \<and>
   width (chartSvg ex_zoomed) = Some (Num (1584 * ex_k13)) \<and>
   height (chartSvg ex_zoomed) = Some (Num (1200 * ex_k13)) \<and>
   width (getStrippedSvg ex_zoomed) = Some (Num (1584 + 1 / 2 ^ 42)) \<and>
   width (getStrippedSvg ex_zoomed) \<noteq> Some (Num 1584)"
proof -
  note st = ex_zoomed_state
  have "width (getStrippedSvg ex_zoomed) =
      Some (jsnum_div (to_double (1584 * zoom_k ex_zoomed)) (zoom_k ex_zoomed))"
    unfolding getStrippedSvg_eq[OF st(2) st(3)] by simp
  then have w: "width (getStrippedSvg ex_zoomed) = Some (Num (1584 + 1 / 2 ^ 42))"
    unfolding st(1) ex_snapshot_width .
  have "(1584 + 1 / 2 ^ 42 :: real) \<noteq> 1584" by simp
  with w st show ?thesis by simp
qed

section \<open>Inlining images\<close>

text \<open>
  C8. The promise of \<open>inlineImages\<close> never rejects, and it resolves once the attempt of
  every image has settled. Each image is treated on its own: when its fetch fails a warning
  is logged and the image is left as it was, when it succeeds the reference becomes the
  data URL. The serialized text of the snapshot is then produced.
\<close>

theorem inlineImages_best_effort:
  "snd (snd (inlineImages br svg)) \<noteq> Rejected \<and>
   ((\<forall>img \<in> set (images svg). href img = [] \<or> fetchAsDataUrl br (href img) \<noteq> Pending) \<longrightarrow>
      snd (snd (inlineImages br svg)) = Resolved ()) \<and>
   length (images (fst (inlineImages br svg))) = length (images svg) \<and>
   length (fst (snd (inlineImages br svg))) = length (images svg) \<and>
   fst (inlineImages br svg) = svg\<lparr>images := images (fst (inlineImages br svg))\<rparr> \<and>
   (\<forall>i < length (images svg).
      (href (images svg ! i) \<noteq> [] \<and> fetchAsDataUrl br (href (images svg ! i)) = Rejected \<longrightarrow>
         images (fst (inlineImages br svg)) ! i = images svg ! i \<and>
         fst (snd (inlineImages br svg)) ! i) \<and>
      (\<forall>u. href (images svg ! i) \<noteq> [] \<and> fetchAsDataUrl br (href (images svg ! i)) = Resolved u \<longrightarrow>
         images (fst (inlineImages br svg)) ! i = (images svg ! i)\<lparr>href := u\<rparr> \<and>
         \<not> fst (snd (inlineImages br svg)) ! i)) \<and>
   (\<forall>w. svg = getStrippedSvg w \<longrightarrow>
      (\<forall>img \<in> set (images svg). href img = [] \<or> fetchAsDataUrl br (href img) \<noteq> Pending) \<longrightarrow>
      getSvgContentsWithInlinedImages br w =
        Resolved (serializeToString br (fst (inlineImages br svg))))"
proof -
  have 1: "snd (snd (inlineImages br svg)) \<noteq> Rejected"
    by (simp add: inlineImages_promise)
  have 2: "(\<forall>img \<in> set (images svg). href img = [] \<or> fetchAsDataUrl br (href img) \<noteq> Pending) \<longrightarrow>
      snd (snd (inlineImages br svg)) = Resolved ()"
    by (simp add: inlineImages_promise)
  have 3: "length (images (fst (inlineImages br svg))) = length (images svg)"
    "length (fst (snd (inlineImages br svg))) = length (images svg)"
    "fst (inlineImages br svg) = svg\<lparr>images := images (fst (inlineImages br svg))\<rparr>"
    by (simp_all add: inlineImages_def Let_def)
  have 4: "\<forall>i < length (images svg).
      (href (images svg ! i) \<noteq> [] \<and> fetchAsDataUrl br (href (images svg ! i)) = Rejected \<longrightarrow>
         images (fst (inlineImages br svg)) ! i = images svg ! i \<and>
         fst (snd (inlineImages br svg)) ! i) \<and>
      (\<forall>u. href (images svg ! i) \<noteq> [] \<and> fetchAsDataUrl br (href (images svg ! i)) = Resolved u \<longrightarrow>
         images (fst (inlineImages br svg)) ! i = (images svg ! i)\<lparr>href := u\<rparr> \<and>
         \<not> fst (snd (inlineImages br svg)) ! i)"
    by (simp add: inlineImages_def Let_def inlineImage_def)
  have 5: "\<forall>w. svg = getStrippedSvg w \<longrightarrow>
      (\<forall>img \<in> set (images svg). href img = [] \<or> fetchAsDataUrl br (href img) \<noteq> Pending) \<longrightarrow>
      getSvgContentsWithInlinedImages br w =
        Resolved (serializeToString br (fst (inlineImages br svg)))"
    using 2 by (auto simp: getSvgContentsWithInlinedImages_def Let_def split: prod.splits)
  from 1 2 3 4 5 show ?thesis by blast
qed


theorem inlineImages_best_effort_witness:
  "fetchAsDataUrl ex_browser ''b.png'' = Rejected \<and>
   inlineImages ex_browser ex_svg3 =
     (ex_svg\<lparr>images := [\<lparr>href = ''data:a.png''\<rparr>, \<lparr>href = ''b.png''\<rparr>, \<lparr>href = ''data:c.png''\<rparr>]\<rparr>,
      [False, True, False], Resolved ())"
proof -
  have f: "fetchAsDataUrl ex_browser ''b.png'' = Rejected"
    by (simp add: fetchAsDataUrl_def ex_browser_def)
  have h: "\<forall>img \<in> set (images ex_svg3). href img = [] \<or> fetchAsDataUrl ex_browser (href img) \<noteq> Pending"
    by (simp add: export_defs)
  from inlineImages_best_effort[of ex_browser ex_svg3] h
  have p: "snd (snd (inlineImages ex_browser ex_svg3)) = Resolved ()" by blast
  have i: "fst (inlineImages ex_browser ex_svg3) =
      ex_svg\<lparr>images := [\<lparr>href = ''data:a.png''\<rparr>, \<lparr>href = ''b.png''\<rparr>, \<lparr>href = ''data:c.png''\<rparr>]\<rparr>"
    "fst (snd (inlineImages ex_browser ex_svg3)) = [False, True, False]"
    by (simp_all add: export_defs)
  from f p i show ?thesis by (simp add: prod_eq_iff)
qed

section \<open>Promises that never settle\<close>

text \<open>
  C10. \<open>loadImage\<close> and \<open>loadAsDataUrl\<close> never reject: on a decode error or a read
  error their promise stays pending. A PNG or PDF export whose SVG text does not decode
  stays pending, and such an export is rejected only when \<open>canvas.toBlob\<close> yields no blob.
\<close>

theorem load_promises_never_reject:
  "loadImage br blob \<noteq> Rejected \<and> loadAsDataUrl br blob \<noteq> Rejected \<and>
   (image_result br blob = ImageError \<longrightarrow> loadImage br blob = Pending) \<and>
   (reader_result br blob = ReaderError \<longrightarrow> loadAsDataUrl br blob = Pending) \<and>
   (\<forall>contents. getSvgContentsWithInlinedImages br w = Resolved contents \<and>
        image_result br contents = ImageError \<longrightarrow>
        downloadPng br w = Pending \<and> downloadPdf br w = Pending) \<and>
   (downloadPng br w = Rejected \<longrightarrow>
      (\<exists>contents img. getSvgContentsWithInlinedImages br w = Resolved contents \<and>
         loadImage br contents = Resolved img \<and>
         toBlob br (drawImageOnCanvas img) ''image/png'' = None)) \<and>
   (downloadPdf br w = Rejected \<longrightarrow>
      (\<exists>contents img. getSvgContentsWithInlinedImages br w = Resolved contents \<and>
         loadImage br contents = Resolved img \<and>
         toBlob br (drawImageOnCanvas img) ''application/pdf'' = None))"
proof -
  have 1: "image_result br blob = ImageError \<longrightarrow> loadImage br blob = Pending"
    by (simp add: loadImage_def)
  have 2: "reader_result br blob = ReaderError \<longrightarrow> loadAsDataUrl br blob = Pending"
    by (simp add: loadAsDataUrl_def)
  have 3: "\<forall>contents. getSvgContentsWithInlinedImages br w = Resolved contents \<and>
        image_result br contents = ImageError \<longrightarrow>
        downloadPng br w = Pending \<and> downloadPdf br w = Pending"
    by (simp add: downloadPng_def downloadPdf_def loadImage_def)
  have 4: "downloadPng br w = Rejected \<longrightarrow>
      (\<exists>contents img. getSvgContentsWithInlinedImages br w = Resolved contents \<and>
         loadImage br contents = Resolved img \<and>
         toBlob br (drawImageOnCanvas img) ''image/png'' = None)"
    unfolding downloadPng_def by (rule impI) (erule download_Rejected)
  have 5: "downloadPdf br w = Rejected \<longrightarrow>
      (\<exists>contents img. getSvgContentsWithInlinedImages br w = Resolved contents \<and>
         loadImage br contents = Resolved img \<and>
         toBlob br (drawImageOnCanvas img) ''application/pdf'' = None)"
    unfolding downloadPdf_def by (rule impI) (erule download_Rejected)
  from loadImage_not_Rejected loadAsDataUrl_not_Rejected 1 2 3 4 5 show ?thesis by blast
qed

theorem load_promises_never_reject_witness:
  "getSvgContentsWithInlinedImages ex_browser_no_decode (ex_world\<lparr>chartSvg := ex_svg3\<rparr>) =
      Resolved ''data:a.pngb.pngdata:c.png'' \<and>
   image_result ex_browser_no_decode ''data:a.pngb.pngdata:c.png'' = ImageError \<and>
   downloadPng ex_browser_no_decode (ex_world\<lparr>chartSvg := ex_svg3\<rparr>) = Pending \<and>
   downloadPdf ex_browser_no_decode (ex_world\<lparr>chartSvg := ex_svg3\<rparr>) = Pending"
proof -
  have c: "getSvgContentsWithInlinedImages ex_browser_no_decode (ex_world\<lparr>chartSvg := ex_svg3\<rparr>) =
      Resolved ''data:a.pngb.pngdata:c.png''"
    by (simp add: export_defs)
  have e: "image_result ex_browser_no_decode ''data:a.pngb.pngdata:c.png'' = ImageError"
    by (simp add: ex_browser_no_decode_def)
  from load_promises_never_reject[of ex_browser_no_decode "''data:a.pngb.pngdata:c.png''"
      "ex_world\<lparr>chartSvg := ex_svg3\<rparr>"] c e
  show ?thesis by blast
qed

section \<open>Deduplication\<close>

text \<open>
  C2, as amended. In both variants the dataset given to the chart keeps, for every id,
  exactly the first record of the input with that id, and the families are passed on. The
  second variant leaves all records as they are, so the later duplicates are dropped with
  their fields. The first variant changes no field other than \<open>fams\<close> and \<open>famc\<close>,
  and, the records of the dataset being distinct objects, leaves the kept record as the
  fold of \<open>merge_record\<close> over the later records with its id: with one duplicate,
  \<open>fams\<close> is the union of both lists and \<open>famc\<close> is the duplicate's unless that is
  falsy.
\<close>

theorem filterData_first_record_kept:
  "(\<forall>k. filter (\<lambda>r. indi_id (h r) = k) (indis (snd (filterData v h d))) =
          (case find (\<lambda>r. indi_id (h r) = k) (indis d) of None \<Rightarrow> [] | Some r \<Rightarrow> [r])) \<and>
   gfams (snd (filterData v h d)) = gfams d \<and>
   (v = FirstWins \<longrightarrow> fst (filterData v h d) = h) \<and>
   (v = Merging \<longrightarrow>
      (\<forall>r. fst (filterData v h d) r =
             (h r)\<lparr>fams := fams (fst (filterData v h d) r),
                    famc := famc (fst (filterData v h d) r)\<rparr>) \<and>
      (distinct (indis d) \<longrightarrow>
         (\<forall>k e. find (\<lambda>r. indi_id (h r) = k) (indis d) = Some e \<longrightarrow>
            fst (filterData v h d) e =
              foldl merge_record (h e)
                (map h (filter (\<lambda>r. indi_id (h r) = k \<and> r \<noteq> e) (indis d))) \<and>
            (\<forall>r. filter (\<lambda>r. indi_id (h r) = k \<and> r \<noteq> e) (indis d) = [r] \<longrightarrow>
               fams (fst (filterData v h d) e) =
                 Some (new_Set (or_empty (fams (h e)) @ or_empty (fams (h r)))) \<and>
               famc (fst (filterData v h d) e) = js_or (famc (h r)) (famc (h e))))))"
proof -
  have 1: "\<forall>k. filter (\<lambda>r. indi_id (h r) = k) (indis (snd (filterData v h d))) =
          (case find (\<lambda>r. indi_id (h r) = k) (indis d) of None \<Rightarrow> [] | Some r \<Rightarrow> [r])"
    by (simp add: filterData_indis first_wins_retained)
  have 2: "gfams (snd (filterData v h d)) = gfams d"
    by (cases v) (simp_all add: filterData_def split: prod.splits)
  have 3: "v = FirstWins \<longrightarrow> fst (filterData v h d) = h"
    by (simp add: filterData_def)
  have m: "fst (filterData Merging h d) = fst (uniqueIndis_merge h (indis d))"
    by (simp add: filterData_def split: prod.splits)
  have "only_links_differ h (fst (uniqueIndis_merge h (indis d)))"
    unfolding uniqueIndis_merge_def using merge_loop_map[OF only_links_differ_refl] by blast
  then have 4: "v = Merging \<longrightarrow>
      (\<forall>r. fst (filterData v h d) r =
             (h r)\<lparr>fams := fams (fst (filterData v h d) r),
                    famc := famc (fst (filterData v h d) r)\<rparr>)"
    by (auto simp: m only_links_differ_def)
  have 5: "fst (filterData Merging h d) e =
              foldl merge_record (h e)
                (map h (filter (\<lambda>r. indi_id (h r) = k \<and> r \<noteq> e) (indis d)))"
    if "distinct (indis d)" "find (\<lambda>r. indi_id (h r) = k) (indis d) = Some e" for k e
    unfolding m using that by (rule uniqueIndis_merge_first)
  have 6: "fams (fst (filterData Merging h d) e) =
                 Some (new_Set (or_empty (fams (h e)) @ or_empty (fams (h r)))) \<and>
               famc (fst (filterData Merging h d) e) = js_or (famc (h r)) (famc (h e))"
    if "distinct (indis d)" "find (\<lambda>r. indi_id (h r) = k) (indis d) = Some e"
       "filter (\<lambda>r. indi_id (h r) = k \<and> r \<noteq> e) (indis d) = [r]" for k e r
    unfolding 5[OF that(1) that(2)] that(3) by (simp add: merge_record_def)
  from 1 2 3 4 5 6 show ?thesis by blast
qed

theorem filterData_first_record_kept_witness:
  "indis (snd (filterData FirstWins ex_heap (data ex_props))) = [0, 1] \<and>
   find (\<lambda>r. indi_id (ex_heap r) = ''I1'') (indis (data ex_props)) = Some 1 \<and>
   filter (\<lambda>r. indi_id (ex_heap r) = ''I1'') (indis (snd (filterData FirstWins ex_heap (data ex_props)))) = [1] \<and>
   fst (filterData FirstWins ex_heap (data ex_props)) = ex_heap \<and>
   distinct (indis (data ex_props)) \<and>
   filter (\<lambda>r. indi_id (ex_heap r) = ''I1'' \<and> r \<noteq> 1) (indis (data ex_props)) = [2] \<and>
   fst (filterData Merging ex_heap (data ex_props)) 1 =
     \<lparr>indi_id = ''I1'', fams = Some [''F1'', ''F2''], famc = Some ''F3'', sex = Some ''M'',
      firstName = Some ''Ann''\<rparr>"
proof -
  have f: "find (\<lambda>r. indi_id (ex_heap r) = ''I1'') (indis (data ex_props)) = Some 1"
    by (simp add: ex_defs)
  have i: "indis (snd (filterData FirstWins ex_heap (data ex_props))) = [0, 1]"
    by (simp add: dedup_defs ex_defs)
  have d: "distinct (indis (data ex_props))" by (simp add: ex_props_def)
  have l: "filter (\<lambda>r. indi_id (ex_heap r) = ''I1'' \<and> r \<noteq> 1) (indis (data ex_props)) = [2]"
    by (simp add: ex_defs)
  have s: "ex_heap 1 =
     \<lparr>indi_id = ''I1'', fams = Some [''F1''], famc = None, sex = Some ''M'', firstName = Some ''Ann''\<rparr>"
    "ex_heap 2 =
     \<lparr>indi_id = ''I1'', fams = Some [''F2''], famc = Some ''F3'', sex = Some ''F'', firstName = Some ''Bea''\<rparr>"
    by (simp_all add: ex_defs)
  from filterData_first_record_kept[of ex_heap FirstWins "data ex_props"] f
  have a: "filter (\<lambda>r. indi_id (ex_heap r) = ''I1'') (indis (snd (filterData FirstWins ex_heap (data ex_props)))) = [1]"
    and b: "fst (filterData FirstWins ex_heap (data ex_props)) = ex_heap"
    by simp_all
  from filterData_first_record_kept[of ex_heap Merging "data ex_props"] d f
  have "fst (filterData Merging ex_heap (data ex_props)) 1 =
      foldl merge_record (ex_heap 1)
        (map ex_heap (filter (\<lambda>r. indi_id (ex_heap r) = ''I1'' \<and> r \<noteq> 1) (indis (data ex_props))))"
    by blast
  then have c: "fst (filterData Merging ex_heap (data ex_props)) 1 =
     \<lparr>indi_id = ''I1'', fams = Some [''F1'', ''F2''], famc = Some ''F3'', sex = Some ''M'',
      firstName = Some ''Ann''\<rparr>"
    unfolding l using s by (simp add: merge_record_def new_Set_def set_add_def or_empty_def js_or_def)
  from f i a b d l c show ?thesis by simp
qed

text \<open>
  The claim as stated fails in the first variant: the family links of the later duplicate
  end up in the kept record.
\<close>

theorem filterData_first_record_kept_counterexample:
  "indi_id (ex_heap 1) = indi_id (ex_heap 2) \<and>
   indis (snd (filterData Merging ex_heap (data ex_props))) = [0, 1] \<and>
   fams (ex_heap 1) = Some [''F1''] \<and> famc (ex_heap 1) = None \<and>
   fams (fst (filterData Merging ex_heap (data ex_props)) 1) = Some [''F1'', ''F2''] \<and>
   famc (fst (filterData Merging ex_heap (data ex_props)) 1) = Some ''F3''"
  by (simp add: dedup_defs ex_defs)

text \<open>
  C9. In the merging variant a render that passes the two gates leaves the first record
  with a given id, in the heap the caller's dataset points into, as the fold of
  \<open>merge_record\<close> over the later records with that id (the records of the dataset being
  distinct objects): with one duplicate, \<open>fams\<close> is the union of both lists and
  \<open>famc\<close> is the duplicate's unless that is falsy.
\<close>

theorem renderChart_merges_in_place:
  assumes "initialRender args \<or> (\<not> animating w \<and> \<not> freezeAnimation props)"
      and "distinct (indis (data props))"
      and "find (\<lambda>r. indi_id (store w r) = k) (indis (data props)) = Some e"
  shows "store (world_of (renderChart Merging lib props loc args w)) e =
           foldl merge_record (store w e)
             (map (store w) (filter (\<lambda>r. indi_id (store w r) = k \<and> r \<noteq> e) (indis (data props)))) \<and>
         (\<forall>r. filter (\<lambda>r. indi_id (store w r) = k \<and> r \<noteq> e) (indis (data props)) = [r] \<longrightarrow>
            fams (store (world_of (renderChart Merging lib props loc args w)) e) =
              Some (new_Set (or_empty (fams (store w e)) @ or_empty (fams (store w r)))) \<and>
            famc (store (world_of (renderChart Merging lib props loc args w)) e) =
              js_or (famc (store w r)) (famc (store w e)))"
proof -
  have "store (world_of (renderChart Merging lib props loc args w)) =
          fst (uniqueIndis_merge (store w) (indis (data props)))"
    using renderChart_store[OF assms(1)] by (simp add: filterData_def split: prod.splits)
  then have eq: "store (world_of (renderChart Merging lib props loc args w)) e =
           foldl merge_record (store w e)
             (map (store w) (filter (\<lambda>r. indi_id (store w r) = k \<and> r \<noteq> e) (indis (data props))))"
    using uniqueIndis_merge_first[OF assms(2) assms(3)] by simp
  then show ?thesis by (auto simp: merge_record_def)
qed

theorem renderChart_merges_in_place_witness:
  "distinct (indis (data ex_props)) \<and>
   find (\<lambda>r. indi_id (store ex_world r) = ''I1'') (indis (data ex_props)) = Some 1 \<and>
   filter (\<lambda>r. indi_id (store ex_world r) = ''I1'' \<and> r \<noteq> 1) (indis (data ex_props)) = [2] \<and>
   store ex_world 1 =
     \<lparr>indi_id = ''I1'', fams = Some [''F1''], famc = None, sex = Some ''M'', firstName = Some ''Ann''\<rparr> \<and>
   store (world_of (renderChart Merging ex_lib ex_props ''en''
      \<lparr>initialRender = True, resetPosition = True\<rparr> ex_world)) 1 =
     \<lparr>indi_id = ''I1'', fams = Some [''F1'', ''F2''], famc = Some ''F3'', sex = Some ''M'',
      firstName = Some ''Ann''\<rparr>"
proof -
  let ?a = "\<lparr>initialRender = True, resetPosition = True\<rparr>"
  have g: "initialRender ?a \<or> (\<not> animating ex_world \<and> \<not> freezeAnimation ex_props)" by simp
  have d: "distinct (indis (data ex_props))" by (simp add: ex_props_def)
  have f: "find (\<lambda>r. indi_id (store ex_world r) = ''I1'') (indis (data ex_props)) = Some 1"
    by (simp add: ex_defs)
  have l: "filter (\<lambda>r. indi_id (store ex_world r) = ''I1'' \<and> r \<noteq> 1) (indis (data ex_props)) = [2]"
    by (simp add: ex_defs)
  have s: "store ex_world 1 =
     \<lparr>indi_id = ''I1'', fams = Some [''F1''], famc = None, sex = Some ''M'', firstName = Some ''Ann''\<rparr>"
    "store ex_world 2 =
     \<lparr>indi_id = ''I1'', fams = Some [''F2''], famc = Some ''F3'', sex = Some ''F'', firstName = Some ''Bea''\<rparr>"
    by (simp_all add: ex_defs)
  from renderChart_merges_in_place[OF g d f, of ex_lib "''en''"]
  have "store (world_of (renderChart Merging ex_lib ex_props ''en'' ?a ex_world)) 1 =
      foldl merge_record (store ex_world 1) (map (store ex_world) [2])"
    unfolding l by blast
  then have "store (world_of (renderChart Merging ex_lib ex_props ''en'' ?a ex_world)) 1 =
     \<lparr>indi_id = ''I1'', fams = Some [''F1'', ''F2''], famc = Some ''F3'', sex = Some ''M'',
      firstName = Some ''Ann''\<rparr>"
    using s by (simp add: merge_record_def new_Set_def set_add_def or_empty_def js_or_def)
  with d f l s(1) show ?thesis by blast
qed

end
